theory Spec2Isabelle
  imports Main "HOL-Library.Multiset"
begin

section \<open>Data model\<close>

text \<open>
  The repository is a Django project. Its two source files declare the tables of the
  blog (\<^verbatim>\<open>apps/blog/models.py\<close>) and the account forms
  (\<^verbatim>\<open>apps/accounts/forms.py\<close>). A table is a list of rows in insertion order;
  every row carries its primary key. A foreign key is the primary key of the row it
  points to, a nullable foreign key is an \<open>option\<close>. Timestamps are integers (a
  count of time units since some epoch); Python's unbounded integers are \<open>int\<close>.
\<close>

type_synonym pk = nat
type_synonym datetime = int

text \<open>
  \<^verbatim>\<open>django.contrib.auth.models.User\<close>, with the fields the forms name
  (\<^verbatim>\<open>forms.py\<close>, lines 33-35 and 74-78).
\<close>

record user =
  user_id :: pk
  user_username :: string
  user_email :: string
  user_first_name :: string
  user_last_name :: string

text \<open>
  Modelled from the spec: the model \<^verbatim>\<open>Profile\<close> (\<^verbatim>\<open>apps/accounts/models.py\<close>) is
  not among the sources; the spec's data model gives it a one-to-one user reference, a
  birth date, a bio and an avatar image reference. The three fields are the ones
  \<^verbatim>\<open>ProfileUpdateForm.Meta.fields\<close> names. An empty avatar reference is the empty
  string, as Django stores a file field without a file.
\<close>

record profile =
  profile_id :: pk
  profile_user :: pk
  profile_birth_date :: "datetime option"
  profile_bio :: string
  profile_avatar :: string

text \<open>
  \<^verbatim>\<open>class Category(MPTTModel)\<close>, \<^verbatim>\<open>models.py\<close> lines 96-108. The last four columns
  are the ones the tree package adds to every \<^verbatim>\<open>MPTTModel\<close> for its bookkeeping: the
  left and right bounds of the node in the nested-set numbering of its tree, the id of
  the tree and the depth of the node.
\<close>

record category =
  category_id :: pk
  category_title :: string
  category_slug :: string
  category_description :: string
  category_parent :: "pk option"
  category_lft :: int
  category_rght :: int
  category_tree_id :: int
  category_level :: int

text \<open>
  \<^verbatim>\<open>class Post(models.Model)\<close>, \<^verbatim>\<open>models.py\<close> lines 24-67. The status is the stored
  string (\<^verbatim>\<open>'published'\<close> or \<^verbatim>\<open>'draft'\<close>). The tags live in the tables of the tagging
  package and are left out.
\<close>

record post =
  post_id :: pk
  post_title :: string
  post_slug :: string
  post_description :: string
  post_category :: pk
  post_text :: string
  post_thumbnail :: string
  post_status :: string
  post_create :: datetime
  post_update :: datetime
  post_author :: pk
  post_updater :: "pk option"
  post_fixed :: bool

text \<open>
  \<^verbatim>\<open>class Comment(MPTTModel)\<close>, \<^verbatim>\<open>models.py\<close> lines 137-161. The tree columns of a
  comment are left out: no operation below reads or writes them (comments are removed
  only along with their post or author, by the collector, which does not go through
  \<^verbatim>\<open>MPTTModel.delete\<close>).
\<close>

record comment =
  comment_id :: pk
  comment_post :: pk
  comment_author :: pk
  comment_content :: string
  comment_time_create :: datetime
  comment_time_update :: datetime
  comment_status :: string
  comment_parent :: "pk option"

text \<open>\<^verbatim>\<open>class Rating(models.Model)\<close>, \<^verbatim>\<open>models.py\<close> lines 181-193.\<close>

record rating =
  rating_id :: pk
  rating_post :: pk
  rating_user :: "pk option"
  rating_value :: int
  rating_time_create :: datetime
  rating_ip_address :: string

record store =
  users :: "user list"
  profiles :: "profile list"
  categories :: "category list"
  posts :: "post list"
  comments :: "comment list"
  ratings :: "rating list"

definition empty_store :: store where
  "empty_store =
     \<lparr>users = [], profiles = [], categories = [], posts = [], comments = [], ratings = []\<rparr>"

text \<open>
  The errors of the spec's taxonomy that the operations below raise. Django's names for
  them are \<^verbatim>\<open>ValidationError\<close>, \<^verbatim>\<open>IntegrityError\<close> for a violated uniqueness
  constraint (\<open>ConflictError\<close>), and \<^verbatim>\<open>ProtectedError\<close> for a protected foreign key
  or \<^verbatim>\<open>IntegrityError\<close> for a foreign key that would point nowhere
  (\<open>ReferentialError\<close>). \<open>DoesNotExist\<close> is Django's error of a lookup that finds
  no row.
\<close>

datatype error = ValidationError | ConflictError | ReferentialError | DoesNotExist

text \<open>
  A form field as far as its validation goes: whether a value is required (the default
  of a Django form field, unless the declaration passes \<^verbatim>\<open>required=False\<close>) and the
  \<^verbatim>\<open>max_length\<close> of a text field.
\<close>

record form_field =
  field_required :: bool
  field_max_length :: "nat option"

text \<open>
  The sources rely on Python and Django for a few normalisations and checks whose code
  is not among them. They are parameters of the operations below, gathered in one
  record, and every theorem holds whatever they compute:
  \<^item> \<open>str_strip\<close> is Python's \<^verbatim>\<open>str.strip\<close>, which a text form field applies to the
    submitted value before anything else;
  \<^item> \<open>validate_email\<close> is Django's \<^verbatim>\<open>EmailValidator\<close>, the format check of an email
    form field;
  \<^item> \<open>EmailField_max_length\<close> is the \<^verbatim>\<open>max_length\<close> that \<^verbatim>\<open>forms.EmailField\<close> takes
    when the declaration passes none (320 in recent releases of Django, none before);
  \<^item> \<open>normalize_email\<close> is \<^verbatim>\<open>BaseUserManager.normalize_email\<close>, which \<^verbatim>\<open>User.clean()\<close>
    applies to the email of the instance when a model form is validated (it writes the
    domain part in lower case);
  \<^item> \<open>get_prep_value\<close> is \<^verbatim>\<open>GenericIPAddressField.get_prep_value\<close>, which rewrites an
    IPv6 address in its canonical form on the way to the datastore.
\<close>

record framework =
  str_strip :: "string \<Rightarrow> string"
  validate_email :: "string \<Rightarrow> bool"
  EmailField_max_length :: "nat option"
  normalize_email :: "string \<Rightarrow> string"
  get_prep_value :: "string \<Rightarrow> string"

section \<open>Query ordering\<close>

text \<open>
  \<^verbatim>\<open>Meta.ordering\<close> is a list of field names, a leading \<^verbatim>\<open>-\<close> meaning descending. A
  term of the ordering is the key it reads from a row and its direction. \<open>precedes\<close>
  is the lexicographic comparison the datastore's \<^verbatim>\<open>ORDER BY\<close> makes; \<open>order_by\<close>
  sorts by insertion and keeps rows that compare equal in table order.
\<close>

datatype 'a order_term = Asc "'a \<Rightarrow> int" | Desc "'a \<Rightarrow> int"

fun precedes :: "'a order_term list \<Rightarrow> 'a \<Rightarrow> 'a \<Rightarrow> bool" where
  "precedes [] x y = True"
| "precedes (Asc k # ts) x y = (k x < k y \<or> (k x = k y \<and> precedes ts x y))"
| "precedes (Desc k # ts) x y = (k y < k x \<or> (k x = k y \<and> precedes ts x y))"

fun insert_by :: "'a order_term list \<Rightarrow> 'a \<Rightarrow> 'a list \<Rightarrow> 'a list" where
  "insert_by ts x [] = [x]"
| "insert_by ts x (y # ys) =
     (if precedes ts x y then x # y # ys else y # insert_by ts x ys)"

definition order_by :: "'a order_term list \<Rightarrow> 'a list \<Rightarrow> 'a list" where
  "order_by ts xs = foldr (insert_by ts) xs []"

text \<open>\<^verbatim>\<open>Post.Meta.ordering = ['-fixed', '-create']\<close> (line 71); a boolean orders as 0 or 1.\<close>

definition Post_Meta_ordering :: "post order_term list" where
  "Post_Meta_ordering = [Desc (\<lambda>p. of_bool (post_fixed p)), Desc post_create]"

text \<open>\<^verbatim>\<open>Rating.Meta.ordering = ('-time_create',)\<close> (line 197).\<close>

definition Rating_Meta_ordering :: "rating order_term list" where
  "Rating_Meta_ordering = [Desc rating_time_create]"

section \<open>The published posts\<close>

text \<open>
  \<^verbatim>\<open>models.Manager.get_queryset\<close> on \<^verbatim>\<open>Post\<close>: every row, in the order of
  \<^verbatim>\<open>Meta.ordering\<close>.
\<close>

definition Manager_get_queryset :: "store \<Rightarrow> post list" where
  "Manager_get_queryset st = order_by Post_Meta_ordering (posts st)"

text \<open>
  \<^verbatim>\<open>select_related('author', 'category')\<close>: both foreign keys are not nullable, so the
  query joins the two tables with an inner join, and a post whose author or category row
  is missing yields no result row.
\<close>

definition select_related :: "store \<Rightarrow> post list \<Rightarrow> (post \<times> user \<times> category) list" where
  "select_related st ps =
     List.map_filter
       (\<lambda>p. case (find (\<lambda>u. user_id u = post_author p) (users st),
                  find (\<lambda>c. category_id c = post_category p) (categories st)) of
               (Some u, Some c) \<Rightarrow> Some (p, u, c)
             | _ \<Rightarrow> None)
       ps"

text \<open>
  \<^verbatim>\<open>PostManager.get_queryset\<close> (lines 17-21):
  \<^verbatim>\<open>super().get_queryset().select_related('author', 'category').filter(status='published')\<close>.
\<close>

definition PostManager_get_queryset :: "store \<Rightarrow> (post \<times> user \<times> category) list" where
  "PostManager_get_queryset st =
     filter (\<lambda>(p, u, c). post_status p = ''published'')
       (select_related st (Manager_get_queryset st))"

text \<open>
  The foreign keys of \<^verbatim>\<open>Post\<close> that the join follows point to stored rows: the
  datastore's foreign-key constraints keep every state of the store so.
\<close>

definition post_fk_integrity :: "store \<Rightarrow> bool" where
  "post_fk_integrity st =
     list_all (\<lambda>p. post_author p \<in> user_id ` set (users st) \<and>
                    post_category p \<in> category_id ` set (categories st)) (posts st)"

section \<open>The score of a post\<close>

text \<open>
  \<^verbatim>\<open>self.ratings.all()\<close>: the reverse side of \<^verbatim>\<open>Rating.post\<close>
  (\<^verbatim>\<open>related_name='ratings'\<close>), the ratings whose \<^verbatim>\<open>post\<close> is this post, in the order
  of \<^verbatim>\<open>Rating.Meta.ordering\<close>.
\<close>

definition Post_ratings_all :: "store \<Rightarrow> pk \<Rightarrow> rating list" where
  "Post_ratings_all st p =
     order_by Rating_Meta_ordering (filter (\<lambda>r. rating_post r = p) (ratings st))"

text \<open>
  \<^verbatim>\<open>Post.get_sum_rating\<close> (lines 92-93):
  \<^verbatim>\<open>sum([rating.value for rating in self.ratings.all()])\<close>. Python's \<^verbatim>\<open>sum\<close> adds from the
  left, starting at 0.
\<close>

definition get_sum_rating :: "store \<Rightarrow> pk \<Rightarrow> int" where
  "get_sum_rating st p = foldl (\<lambda>s v. s + v) 0 (map rating_value (Post_ratings_all st p))"

text \<open>
  The spec's \<open>score_of\<close>, in the spec's words: the arithmetic sum of the values of all
  Ratings stored for the post, each stored row counted once.
\<close>

definition score_of_spec :: "store \<Rightarrow> pk \<Rightarrow> int" where
  "score_of_spec st p =
     sum_mset (image_mset rating_value (filter_mset (\<lambda>r. rating_post r = p) (mset (ratings st))))"

section \<open>Deleting rows\<close>

text \<open>
  Every \<^verbatim>\<open>ForeignKey\<close> of \<^verbatim>\<open>models.py\<close> names what happens to the referring row
  when the row it points to is deleted. The four policies in use:
\<close>

datatype on_delete = CASCADE | PROTECT | SET_NULL | SET_DEFAULT

datatype model = User | Profile | Category | Post | Comment | Rating

text \<open>
  The foreign keys, named by model and field. All but the last are declared in
  \<^verbatim>\<open>models.py\<close>: \<^verbatim>\<open>Post.category\<close> (line 37), \<^verbatim>\<open>Post.author\<close> (57),
  \<^verbatim>\<open>Post.updater\<close> (59), \<^verbatim>\<open>Category.parent\<close> (106), \<^verbatim>\<open>Comment.post\<close> (147),
  \<^verbatim>\<open>Comment.author\<close> (149), \<^verbatim>\<open>Comment.parent\<close> (160), \<^verbatim>\<open>Rating.post\<close> (185) and
  \<^verbatim>\<open>Rating.user\<close> (187).

  Modelled from the spec: \<open>Profile_user\<close>, the one-to-one reference of the absent
  \<^verbatim>\<open>Profile\<close> model; the spec makes the user the owner of the profile, so the profile
  goes with its user.
\<close>

datatype foreign_key =
    Post_category | Post_author | Post_updater
  | Category_parent
  | Comment_post | Comment_author | Comment_parent
  | Rating_post | Rating_user
  | Profile_user

text \<open>The model that declares the field.\<close>

fun fk_model :: "foreign_key \<Rightarrow> model" where
  "fk_model Post_category = Post"
| "fk_model Post_author = Post"
| "fk_model Post_updater = Post"
| "fk_model Category_parent = Category"
| "fk_model Comment_post = Comment"
| "fk_model Comment_author = Comment"
| "fk_model Comment_parent = Comment"
| "fk_model Rating_post = Rating"
| "fk_model Rating_user = Rating"
| "fk_model Profile_user = Profile"

text \<open>The model the field points to.\<close>

fun fk_to :: "foreign_key \<Rightarrow> model" where
  "fk_to Post_category = Category"
| "fk_to Post_author = User"
| "fk_to Post_updater = User"
| "fk_to Category_parent = Category"
| "fk_to Comment_post = Post"
| "fk_to Comment_author = User"
| "fk_to Comment_parent = Comment"
| "fk_to Rating_post = Post"
| "fk_to Rating_user = User"
| "fk_to Profile_user = User"

text \<open>The \<^verbatim>\<open>on_delete\<close> argument of each declaration.\<close>

fun fk_on_delete :: "foreign_key \<Rightarrow> on_delete" where
  "fk_on_delete Post_category = PROTECT"
| "fk_on_delete Post_author = SET_DEFAULT"
| "fk_on_delete Post_updater = SET_NULL"
| "fk_on_delete Category_parent = CASCADE"
| "fk_on_delete Comment_post = CASCADE"
| "fk_on_delete Comment_author = CASCADE"
| "fk_on_delete Comment_parent = CASCADE"
| "fk_on_delete Rating_post = CASCADE"
| "fk_on_delete Rating_user = CASCADE"
| "fk_on_delete Profile_user = CASCADE"

text \<open>\<^verbatim>\<open>Post.author\<close> is declared with \<^verbatim>\<open>default=1\<close> (line 57).\<close>

definition Post_author_default :: pk where
  "Post_author_default = 1"

definition foreign_keys :: "foreign_key list" where
  "foreign_keys =
     [Post_category, Post_author, Post_updater, Category_parent, Comment_post,
      Comment_author, Comment_parent, Rating_post, Rating_user, Profile_user]"

text \<open>The rows of the declaring table: primary key and value of the field.\<close>

fun fk_rows :: "store \<Rightarrow> foreign_key \<Rightarrow> (pk \<times> pk option) list" where
  "fk_rows st Post_category = map (\<lambda>p. (post_id p, Some (post_category p))) (posts st)"
| "fk_rows st Post_author = map (\<lambda>p. (post_id p, Some (post_author p))) (posts st)"
| "fk_rows st Post_updater = map (\<lambda>p. (post_id p, post_updater p)) (posts st)"
| "fk_rows st Category_parent =
     map (\<lambda>c. (category_id c, category_parent c)) (categories st)"
| "fk_rows st Comment_post = map (\<lambda>c. (comment_id c, Some (comment_post c))) (comments st)"
| "fk_rows st Comment_author =
     map (\<lambda>c. (comment_id c, Some (comment_author c))) (comments st)"
| "fk_rows st Comment_parent = map (\<lambda>c. (comment_id c, comment_parent c)) (comments st)"
| "fk_rows st Rating_post = map (\<lambda>r. (rating_id r, Some (rating_post r))) (ratings st)"
| "fk_rows st Rating_user = map (\<lambda>r. (rating_id r, rating_user r)) (ratings st)"
| "fk_rows st Profile_user = map (\<lambda>p. (profile_id p, Some (profile_user p))) (profiles st)"

text \<open>
  The deletion of an object is the work of Django's collector, which the declarations
  above drive. An object is a model and a primary key. The collector starts from the
  object to delete and gathers, through every \<open>CASCADE\<close> key, the rows that point to
  an object it already holds, until nothing new turns up. If a row points to a collected
  object through a \<open>PROTECT\<close> key, the deletion is refused before anything is
  written. Otherwise the \<open>SET_NULL\<close> and \<open>SET_DEFAULT\<close> keys that point to a
  collected object are reset and the collected rows are removed, all in one transaction.
\<close>

type_synonym obj = "model \<times> pk"

definition points_into :: "foreign_key \<Rightarrow> obj list \<Rightarrow> pk option \<Rightarrow> bool" where
  "points_into f objs v = (case v of None \<Rightarrow> False | Some k \<Rightarrow> (fk_to f, k) \<in> set objs)"

definition related_objects :: "store \<Rightarrow> foreign_key \<Rightarrow> obj list \<Rightarrow> obj list" where
  "related_objects st f objs =
     map (\<lambda>(i, v). (fk_model f, i)) (filter (\<lambda>(i, v). points_into f objs v) (fk_rows st f))"

definition cascaded :: "store \<Rightarrow> obj list \<Rightarrow> obj list" where
  "cascaded st objs =
     concat (map (\<lambda>f. related_objects st f objs)
                 (filter (\<lambda>f. fk_on_delete f = CASCADE) foreign_keys))"

definition all_objects :: "store \<Rightarrow> obj list" where
  "all_objects st =
     map (\<lambda>u. (User, user_id u)) (users st) @
     map (\<lambda>p. (Profile, profile_id p)) (profiles st) @
     map (\<lambda>c. (Category, category_id c)) (categories st) @
     map (\<lambda>p. (Post, post_id p)) (posts st) @
     map (\<lambda>c. (Comment, comment_id c)) (comments st) @
     map (\<lambda>r. (Rating, rating_id r)) (ratings st)"

function collect :: "store \<Rightarrow> obj list \<Rightarrow> obj list" where
  "collect st objs =
     (if filter (\<lambda>x. x \<notin> set objs) (cascaded st objs) = [] then objs
      else collect st (objs @ filter (\<lambda>x. x \<notin> set objs) (cascaded st objs)))"
  by pat_completeness auto
termination
proof (relation "measure (\<lambda>(st, objs). card (set (all_objects st) - set objs))")
  show "wf (measure (\<lambda>(st, objs). card (set (all_objects st) - set objs)))"
    by simp
next
  fix st :: store and objs :: "obj list"
  assume "filter (\<lambda>x. x \<notin> set objs) (cascaded st objs) \<noteq> []"
  then obtain x where x: "x \<in> set (cascaded st objs)" "x \<notin> set objs"
    by (metis (mono_tags, lifting) filter_False)
  have "set (related_objects st f objs) \<subseteq> set (all_objects st)" for f
    by (cases f) (auto simp: related_objects_def all_objects_def)
  then have "set (cascaded st objs) \<subseteq> set (all_objects st)"
    by (fastforce simp: cascaded_def)
  with x have "set (all_objects st) - set (objs @ filter (\<lambda>x. x \<notin> set objs) (cascaded st objs))
          \<subset> set (all_objects st) - set objs"
    by auto
  then have "card (set (all_objects st) - set (objs @ filter (\<lambda>x. x \<notin> set objs) (cascaded st objs)))
          < card (set (all_objects st) - set objs)"
    by (intro psubset_card_mono) simp_all
  then show "((st, objs @ filter (\<lambda>x. x \<notin> set objs) (cascaded st objs)), (st, objs))
          \<in> measure (\<lambda>(st, objs). card (set (all_objects st) - set objs))"
    by simp
qed

declare collect.simps [simp del]

definition protected :: "store \<Rightarrow> obj list \<Rightarrow> bool" where
  "protected st objs =
     list_ex (\<lambda>f. related_objects st f objs \<noteq> [])
       (filter (\<lambda>f. fk_on_delete f = PROTECT) foreign_keys)"

text \<open>
  The keys with a \<open>SET_\<close> policy are fields of \<^verbatim>\<open>Post\<close>: the author falls back
  to the declared default, the updater to null.
\<close>

definition field_updates :: "obj list \<Rightarrow> store \<Rightarrow> store" where
  "field_updates objs st =
     st\<lparr>posts :=
          map (\<lambda>p. p\<lparr>post_author :=
                         (if fk_on_delete Post_author = SET_DEFAULT \<and>
                             points_into Post_author objs (Some (post_author p))
                          then Post_author_default else post_author p),
                       post_updater :=
                         (if fk_on_delete Post_updater = SET_NULL \<and>
                             points_into Post_updater objs (post_updater p)
                          then None else post_updater p)\<rparr>)
              (posts st)\<rparr>"

definition delete_rows :: "obj list \<Rightarrow> store \<Rightarrow> store" where
  "delete_rows objs st =
     st\<lparr>users := filter (\<lambda>u. (User, user_id u) \<notin> set objs) (users st),
        profiles := filter (\<lambda>p. (Profile, profile_id p) \<notin> set objs) (profiles st),
        categories := filter (\<lambda>c. (Category, category_id c) \<notin> set objs) (categories st),
        posts := filter (\<lambda>p. (Post, post_id p) \<notin> set objs) (posts st),
        comments := filter (\<lambda>c. (Comment, comment_id c) \<notin> set objs) (comments st),
        ratings := filter (\<lambda>r. (Rating, rating_id r) \<notin> set objs) (ratings st)\<rparr>"

text \<open>
  A post that falls back to the default author needs that author to be stored once the
  deletion is done. If the default author is missing or is being deleted, the
  foreign-key constraint of the datastore refuses the deletion as a whole (Django's
  \<^verbatim>\<open>IntegrityError\<close>) and nothing is written.
\<close>

definition default_missing :: "store \<Rightarrow> obj list \<Rightarrow> bool" where
  "default_missing st objs =
     (fk_on_delete Post_author = SET_DEFAULT \<and>
      list_ex (\<lambda>p. (Post, post_id p) \<notin> set objs \<and>
                    points_into Post_author objs (Some (post_author p))) (posts st) \<and>
      ((User, Post_author_default) \<in> set objs \<or>
       Post_author_default \<notin> user_id ` set (users st)))"

text \<open>
  \<^verbatim>\<open>models.Model.delete()\<close> on the row of model \<open>m\<close> with primary key \<open>k\<close>: the
  error it raises, if any, and the store it leaves. This is the whole of \<^verbatim>\<open>delete()\<close>
  for \<^verbatim>\<open>Post\<close> and \<^verbatim>\<open>User\<close>; a category is deleted by \<open>Category_delete\<close> below.
\<close>

definition Model_delete :: "store \<Rightarrow> model \<Rightarrow> pk \<Rightarrow> error option \<times> store" where
  "Model_delete st m k =
     (let objs = collect st [(m, k)]
      in if protected st objs \<or> default_missing st objs then (Some ReferentialError, st)
         else (None, delete_rows objs (field_updates objs st)))"

text \<open>
  \<^verbatim>\<open>Category\<close> is an \<^verbatim>\<open>MPTTModel\<close> (line 96), and \<^verbatim>\<open>MPTTModel.delete()\<close> keeps the
  bounds of the tree in step before it hands over to \<^verbatim>\<open>models.Model.delete()\<close>. It
  reads the bounds and the tree id of the row from the datastore (the instance keeps
  its own when the row is gone) and closes the gap that the node and its descendants
  will leave (\<^verbatim>\<open>_close_gap\<close>, which is \<^verbatim>\<open>_manage_space\<close> with the negated width): in
  every row of the same tree, a bound greater than the right bound of the node is
  lowered by the width of the node. The update is written before the collector is
  asked, and on its own, so a deletion that the collector refuses leaves it behind.
\<close>

definition manage_space :: "int \<Rightarrow> int \<Rightarrow> int \<Rightarrow> category list \<Rightarrow> category list" where
  "manage_space width target tree_id rows =
     map (\<lambda>c. if category_tree_id c = tree_id \<and>
                  (target < category_lft c \<or> target < category_rght c)
               then c\<lparr>category_lft :=
                        (if target < category_lft c then category_lft c + width
                         else category_lft c),
                      category_rght :=
                        (if target < category_rght c then category_rght c + width
                         else category_rght c)\<rparr>
               else c)
         rows"

definition close_gap :: "int \<Rightarrow> int \<Rightarrow> int \<Rightarrow> category list \<Rightarrow> category list" where
  "close_gap width target tree_id rows = manage_space (- width) target tree_id rows"

definition refresh_from_db :: "store \<Rightarrow> category \<Rightarrow> category" where
  "refresh_from_db st self =
     (case find (\<lambda>c. category_id c = category_id self) (categories st) of
        None \<Rightarrow> self
      | Some row \<Rightarrow> self\<lparr>category_lft := category_lft row,
                         category_rght := category_rght row,
                         category_tree_id := category_tree_id row\<rparr>)"

definition Category_delete :: "store \<Rightarrow> category \<Rightarrow> error option \<times> store" where
  "Category_delete st self =
     (let node = refresh_from_db st self;
          tree_width = category_rght node - category_lft node + 1;
          target_right = category_rght node;
          tree_id = category_tree_id node;
          st1 = st\<lparr>categories := close_gap tree_width target_right tree_id (categories st)\<rparr>
      in Model_delete st1 Category (category_id node))"

section \<open>Saving a post\<close>

text \<open>
  An automatic primary key: the datastore numbers a new row past every key in use.
\<close>

definition next_pk :: "pk list \<Rightarrow> pk" where
  "next_pk ks = Suc (foldr max ks 0)"

text \<open>
  \<^verbatim>\<open>models.Model.save\<close> on a \<^verbatim>\<open>Post\<close> (the \<^verbatim>\<open>super().save()\<close> of line 90). A row
  whose primary key is stored is updated, any other is inserted; an instance that was
  never saved is one whose key is not in the table. \<^verbatim>\<open>update\<close> is \<^verbatim>\<open>auto_now\<close> and
  \<^verbatim>\<open>create\<close> is \<^verbatim>\<open>auto_now_add\<close> (lines 54-56). The datastore refuses a row whose
  author, updater or category is not stored (the spec's ValidationError for a post with
  a non-existent category). No field of \<^verbatim>\<open>Post\<close> is declared \<^verbatim>\<open>unique=True\<close> and
  \<^verbatim>\<open>Post.Meta\<close> has no \<^verbatim>\<open>unique_together\<close> (lines 32-74), so the primary key is the
  only uniqueness the table enforces.
\<close>

definition Model_save :: "datetime \<Rightarrow> store \<Rightarrow> post \<Rightarrow> error option \<times> store" where
  "Model_save now st p =
     (if post_author p \<notin> user_id ` set (users st) \<or>
         post_category p \<notin> category_id ` set (categories st) \<or>
         (case post_updater p of None \<Rightarrow> False | Some u \<Rightarrow> u \<notin> user_id ` set (users st))
      then (Some ValidationError, st)
      else if post_id p \<in> post_id ` set (posts st)
      then (None, st\<lparr>posts := map (\<lambda>q. if post_id q = post_id p
                                         then p\<lparr>post_update := now\<rparr> else q) (posts st)\<rparr>)
      else (None, st\<lparr>posts := posts st @ [p\<lparr>post_create := now, post_update := now\<rparr>]\<rparr>))"

text \<open>
  \<^verbatim>\<open>Post.save\<close> (lines 85-90):
  \<^verbatim>\<open>self.slug = unique_slugify(self, self.title, self.slug)\<close>, then \<^verbatim>\<open>super().save()\<close>.
  \<^verbatim>\<open>unique_slugify\<close> is imported from \<^verbatim>\<open>apps.services.utils\<close>, which is not among
  the sources: it is a parameter here. It reads the store to look for collisions, so it
  takes the store along with the instance, the title and the current slug.
\<close>

definition Post_save ::
  "(store \<Rightarrow> post \<Rightarrow> string \<Rightarrow> string \<Rightarrow> string) \<Rightarrow> datetime \<Rightarrow> store \<Rightarrow> post
     \<Rightarrow> error option \<times> store" where
  "Post_save unique_slugify now st self =
     Model_save now st
       (self\<lparr>post_slug := unique_slugify st self (post_title self) (post_slug self)\<rparr>)"

section \<open>Casting a vote\<close>

text \<open>
  \<^verbatim>\<open>Rating.value\<close> is declared with \<^verbatim>\<open>choices=[(1, ...), (-1, ...)]\<close> (line 189); the
  labels play no part. \<^verbatim>\<open>Rating.Meta.unique_together = ('post', 'ip_address')\<close>
  (line 196) is the key under which the datastore holds at most one row.
\<close>

definition Rating_value_choices :: "int list" where
  "Rating_value_choices = [1, - 1]"

definition Rating_unique_together :: "rating \<Rightarrow> pk \<times> string" where
  "Rating_unique_together r = (rating_post r, rating_ip_address r)"

text \<open>
  \<^verbatim>\<open>models.Model.save\<close> on a new \<^verbatim>\<open>Rating\<close>: the address goes to the datastore as
  \<^verbatim>\<open>GenericIPAddressField\<close> prepares it (line 193), the datastore inserts the row under
  a fresh primary key, with \<^verbatim>\<open>time_create\<close> set (\<^verbatim>\<open>auto_now_add\<close>, line 191), unless a
  stored row has the same post and address, which the uniqueness constraint forbids
  (Django's \<^verbatim>\<open>IntegrityError\<close>).
\<close>

definition Rating_create ::
  "framework \<Rightarrow> store \<Rightarrow> pk \<Rightarrow> pk option \<Rightarrow> int \<Rightarrow> string \<Rightarrow> datetime
     \<Rightarrow> error option \<times> store" where
  "Rating_create fw st post_pk user_pk v address now =
     (if (post_pk, get_prep_value fw address) \<in> Rating_unique_together ` set (ratings st)
      then (Some ConflictError, st)
      else (None,
            st\<lparr>ratings := ratings st @
                 [\<lparr>rating_id = next_pk (map rating_id (ratings st)),
                   rating_post = post_pk, rating_user = user_pk, rating_value = v,
                   rating_time_create = now,
                   rating_ip_address = get_prep_value fw address\<rparr>]\<rparr>))"

text \<open>
  Modelled from the spec: \<open>cast_vote\<close>. The view that casts a vote is not among the
  sources. The spec: the value must be exactly +1 or -1, any other value fails with
  ValidationError; the call fails with ConflictError if (post, address) already has a
  recorded vote; otherwise it inserts a new Rating row. The value is validated before
  the row reaches the datastore, where the uniqueness constraint is checked.
\<close>

definition cast_vote ::
  "framework \<Rightarrow> store \<Rightarrow> pk \<Rightarrow> string \<Rightarrow> int \<Rightarrow> pk option \<Rightarrow> datetime
     \<Rightarrow> error option \<times> store" where
  "cast_vote fw st post_pk address v user_pk now =
     (if v \<notin> set Rating_value_choices then (Some ValidationError, st)
      else Rating_create fw st post_pk user_pk v address now)"

section \<open>Account forms\<close>

text \<open>Python's truth value of \<^verbatim>\<open>cleaned_data.get('email')\<close>: \<^verbatim>\<open>None\<close> and the empty
  string are false.\<close>

definition truthy :: "string option \<Rightarrow> bool" where
  "truthy s = (case s of None \<Rightarrow> False | Some t \<Rightarrow> t \<noteq> [])"

text \<open>
  \<^verbatim>\<open>UserRegisterForm.clean_email\<close> (\<^verbatim>\<open>forms.py\<close>, lines 80-89):
  \<^verbatim>\<open>if email and User.objects.filter(email=email).exists(): raise forms.ValidationError\<close>,
  else \<^verbatim>\<open>return email\<close>. The filter is the datastore's exact match, taken here as
  equality of strings.
\<close>

definition UserRegisterForm_clean_email ::
  "user list \<Rightarrow> (string \<rightharpoonup> string) \<Rightarrow> error + string option" where
  "UserRegisterForm_clean_email objects cleaned_data =
     (let email = cleaned_data ''email''
      in if truthy email \<and> list_ex (\<lambda>u. Some (user_email u) = email) objects
         then Inl ValidationError
         else Inr email)"

text \<open>
  \<^verbatim>\<open>UserUpdateForm.clean_email\<close> (lines 37-44): the same with
  \<^verbatim>\<open>.exclude(pk=self.instance.pk)\<close>.
\<close>

definition UserUpdateForm_clean_email ::
  "user list \<Rightarrow> pk option \<Rightarrow> (string \<rightharpoonup> string) \<Rightarrow> error + string option" where
  "UserUpdateForm_clean_email objects instance_pk cleaned_data =
     (let email = cleaned_data ''email''
      in if truthy email \<and>
            list_ex (\<lambda>u. Some (user_email u) = email \<and> Some (user_id u) \<noteq> instance_pk) objects
         then Inl ValidationError
         else Inr email)"

text \<open>
  How Django cleans a submitted value before the form's own \<^verbatim>\<open>clean_...\<close> method
  runs. A text field (\<^verbatim>\<open>forms.CharField\<close>) strips the value, refuses an empty value
  when it is required and leaves an empty value that is not required alone, and refuses
  a value longer than its \<^verbatim>\<open>max_length\<close>. An email field is a text field that also
  checks the format of a value that is not empty. A date field is given the parsed
  date, or nothing when the input is blank.
\<close>

definition DateField_clean :: "form_field \<Rightarrow> datetime option \<Rightarrow> error + datetime option" where
  "DateField_clean f data =
     (if data = None \<and> field_required f then Inl ValidationError else Inr data)"

definition CharField_clean :: "framework \<Rightarrow> form_field \<Rightarrow> string \<Rightarrow> error + string" where
  "CharField_clean fw f data =
     (let stripped = str_strip fw data
      in if stripped = [] then (if field_required f then Inl ValidationError else Inr stripped)
         else case field_max_length f of
                None \<Rightarrow> Inr stripped
              | Some n \<Rightarrow> if n < length stripped then Inl ValidationError else Inr stripped)"

definition EmailField_clean :: "framework \<Rightarrow> form_field \<Rightarrow> string \<Rightarrow> error + string" where
  "EmailField_clean fw f data =
     (case CharField_clean fw f data of
        Inl e \<Rightarrow> Inl e
      | Inr stripped \<Rightarrow>
          if stripped \<noteq> [] \<and> \<not> validate_email fw stripped then Inl ValidationError
          else Inr stripped)"

text \<open>
  \<^verbatim>\<open>UserUpdateForm\<close> declares \<^verbatim>\<open>email = forms.EmailField(...)\<close> (lines 18-21), a
  required field with no \<^verbatim>\<open>max_length\<close> of its own. \<^verbatim>\<open>UserRegisterForm\<close> declares no
  email field: it lists \<^verbatim>\<open>'email'\<close> in \<^verbatim>\<open>Meta.fields\<close> (lines 74-78), and the field
  comes from \<^verbatim>\<open>User.email\<close>, which Django declares with \<^verbatim>\<open>blank=True\<close> and
  \<^verbatim>\<open>max_length=254\<close>, so the registration form does not require it.
\<close>

definition UserUpdateForm_email :: "framework \<Rightarrow> form_field" where
  "UserUpdateForm_email fw =
     \<lparr>field_required = True, field_max_length = EmailField_max_length fw\<rparr>"

definition UserRegisterForm_email :: form_field where
  "UserRegisterForm_email = \<lparr>field_required = False, field_max_length = Some 254\<rparr>"

text \<open>
  Both forms are model forms of \<^verbatim>\<open>User\<close>, so a cleaned email goes through the
  validation of the model instance as well: the model's own field (\<^verbatim>\<open>User.email\<close>,
  which Django declares as an email field with \<^verbatim>\<open>blank=True\<close> and
  \<^verbatim>\<open>max_length=254\<close>) passes an empty value and checks the format and the length of
  any other.
\<close>

definition User_email_max_length :: nat where
  "User_email_max_length = 254"

definition User_clean_fields :: "framework \<Rightarrow> string \<Rightarrow> bool" where
  "User_clean_fields fw email =
     (email = [] \<or> (validate_email fw email \<and> length email \<le> User_email_max_length))"

text \<open>
  The spec's \<open>register\<close> and \<open>update_account\<close>: the email field is cleaned, then
  the form's \<^verbatim>\<open>clean_email\<close> decides, then the model's field is validated, and a
  valid form stores the user row with the email as \<^verbatim>\<open>User.clean()\<close> normalises it.
  Every other check of the form (user name, names, passwords, the other fields of the
  model instance) is the argument \<open>rest_valid\<close>: a form that fails one of them is not
  valid and stores nothing.
\<close>

definition register ::
  "framework \<Rightarrow> bool \<Rightarrow> store \<Rightarrow> string \<Rightarrow> string \<Rightarrow> string \<Rightarrow> string
     \<Rightarrow> error option \<times> store" where
  "register fw rest_valid st username email first_name last_name =
     (case EmailField_clean fw UserRegisterForm_email email of
        Inl e \<Rightarrow> (Some e, st)
      | Inr given \<Rightarrow>
          (case UserRegisterForm_clean_email (users st) [''email'' \<mapsto> given] of
             Inl e \<Rightarrow> (Some e, st)
           | Inr cleaned \<Rightarrow>
               if \<not> User_clean_fields fw (case cleaned of None \<Rightarrow> [] | Some e \<Rightarrow> e) \<or>
                  \<not> rest_valid
               then (Some ValidationError, st)
               else (None,
                     st\<lparr>users := users st @
                          [\<lparr>user_id = next_pk (map user_id (users st)),
                            user_username = username,
                            user_email = normalize_email fw
                              (case cleaned of None \<Rightarrow> [] | Some e \<Rightarrow> e),
                            user_first_name = first_name,
                            user_last_name = last_name\<rparr>]\<rparr>)))"

definition update_account ::
  "framework \<Rightarrow> bool \<Rightarrow> store \<Rightarrow> pk \<Rightarrow> string \<Rightarrow> string \<Rightarrow> string \<Rightarrow> string
     \<Rightarrow> error option \<times> store" where
  "update_account fw rest_valid st user_pk username email first_name last_name =
     (case EmailField_clean fw (UserUpdateForm_email fw) email of
        Inl e \<Rightarrow> (Some e, st)
      | Inr given \<Rightarrow>
          (case UserUpdateForm_clean_email (users st) (Some user_pk) [''email'' \<mapsto> given] of
             Inl e \<Rightarrow> (Some e, st)
           | Inr cleaned \<Rightarrow>
               if \<not> User_clean_fields fw (case cleaned of None \<Rightarrow> [] | Some e \<Rightarrow> e) \<or>
                  \<not> rest_valid
               then (Some ValidationError, st)
               else (None,
                     st\<lparr>users :=
                          map (\<lambda>u. if user_id u = user_pk
                                    then u\<lparr>user_username := username,
                                           user_email := normalize_email fw
                                             (case cleaned of None \<Rightarrow> [] | Some e \<Rightarrow> e),
                                           user_first_name := first_name,
                                           user_last_name := last_name\<rparr>
                                    else u)
                              (users st)\<rparr>)))"

text \<open>
  \<^verbatim>\<open>ProfileUpdateForm\<close> (lines 47-66) declares three form fields. None of them passes
  \<^verbatim>\<open>required=False\<close>, so each is required; \<^verbatim>\<open>bio\<close> has \<^verbatim>\<open>max_length=500\<close>.
\<close>

definition ProfileUpdateForm_birth_date :: form_field where
  "ProfileUpdateForm_birth_date = \<lparr>field_required = True, field_max_length = None\<rparr>"

definition ProfileUpdateForm_bio :: form_field where
  "ProfileUpdateForm_bio = \<lparr>field_required = True, field_max_length = Some 500\<rparr>"

definition ProfileUpdateForm_avatar :: form_field where
  "ProfileUpdateForm_avatar = \<lparr>field_required = True, field_max_length = None\<rparr>"

text \<open>
  A file field is cleaned against the value the instance already has
  (\<^verbatim>\<open>FileField.clean(data, initial)\<close>): with no upload and a file already there, the
  file there is the cleaned value; with no upload and none there, the field is empty and
  a required field refuses it. The upload is the name of the submitted file, or nothing
  when the form came without one.
\<close>

definition FileField_clean :: "form_field \<Rightarrow> string option \<Rightarrow> string \<Rightarrow> error + string option" where
  "FileField_clean f data initial =
     (if \<not> truthy data \<and> initial \<noteq> [] then Inr (Some initial)
      else if \<not> truthy data then (if field_required f then Inl ValidationError else Inr None)
      else Inr data)"

text \<open>
  The form bound to a profile: \<^verbatim>\<open>is_valid()\<close> cleans the three fields of
  \<^verbatim>\<open>Meta.fields\<close>, any failure makes the form invalid; \<^verbatim>\<open>save()\<close> writes the cleaned
  values to the instance (a file field with no cleaned value keeps what it has).
\<close>

definition ProfileUpdateForm_save ::
  "framework \<Rightarrow> profile \<Rightarrow> datetime option \<Rightarrow> string \<Rightarrow> string option
     \<Rightarrow> error + profile" where
  "ProfileUpdateForm_save fw instance birth_date bio avatar =
     (case (DateField_clean ProfileUpdateForm_birth_date birth_date,
            CharField_clean fw ProfileUpdateForm_bio bio,
            FileField_clean ProfileUpdateForm_avatar avatar (profile_avatar instance)) of
        (Inr d, Inr b, Inr a) \<Rightarrow>
          Inr (instance\<lparr>profile_birth_date := d, profile_bio := b,
                        profile_avatar := (case a of None \<Rightarrow> profile_avatar instance
                                           | Some file \<Rightarrow> file)\<rparr>)
      | _ \<Rightarrow> Inl ValidationError)"

text \<open>
  The spec's \<open>update_profile\<close>: the form, bound to the profile of the user, validated
  and saved.
\<close>

definition update_profile ::
  "framework \<Rightarrow> store \<Rightarrow> pk \<Rightarrow> datetime option \<Rightarrow> string \<Rightarrow> string option
     \<Rightarrow> error option \<times> store" where
  "update_profile fw st user_pk birth_date bio avatar =
     (case find (\<lambda>p. profile_user p = user_pk) (profiles st) of
        None \<Rightarrow> (Some DoesNotExist, st)
      | Some instance \<Rightarrow>
          (case ProfileUpdateForm_save fw instance birth_date bio avatar of
             Inl e \<Rightarrow> (Some e, st)
           | Inr saved \<Rightarrow>
               (None,
                st\<lparr>profiles := map (\<lambda>q. if profile_id q = profile_id instance then saved else q)
                                     (profiles st)\<rparr>)))"

section \<open>Example stores\<close>

text \<open>Three ratings: two likes for post 1 and a dislike for post 2.\<close>

definition ex_ratings :: store where
  "ex_ratings = empty_store\<lparr>ratings :=
     [\<lparr>rating_id = 1, rating_post = 1, rating_user = None, rating_value = 1,
       rating_time_create = 10, rating_ip_address = ''1.2.3.4''\<rparr>,
      \<lparr>rating_id = 2, rating_post = 1, rating_user = None, rating_value = 1,
       rating_time_create = 20, rating_ip_address = ''1.2.3.5''\<rparr>,
      \<lparr>rating_id = 3, rating_post = 2, rating_user = None, rating_value = - 1,
       rating_time_create = 30, rating_ip_address = ''1.2.3.4''\<rparr>]\<rparr>"

text \<open>
  A blog with one user and one category. Post 1 is published and recent, post 2 is
  published, pinned and old, post 3 is a draft.
\<close>

definition ex_user :: user where
  "ex_user = \<lparr>user_id = 1, user_username = ''ann'', user_email = ''a@x.com'',
               user_first_name = ''Ann'', user_last_name = ''A''\<rparr>"

definition ex_category :: category where
  "ex_category = \<lparr>category_id = 1, category_title = ''Tech'', category_slug = ''tech'',
                   category_description = ''d'', category_parent = None,
                   category_lft = 1, category_rght = 2, category_tree_id = 1,
                   category_level = 0\<rparr>"

definition ex_post :: "pk \<Rightarrow> string \<Rightarrow> string \<Rightarrow> datetime \<Rightarrow> bool \<Rightarrow> post" where
  "ex_post k slug status created pinned =
     \<lparr>post_id = k, post_title = ''Tech'', post_slug = slug, post_description = ''d'',
      post_category = 1, post_text = ''x'', post_thumbnail = ''default.jpg'',
      post_status = status, post_create = created, post_update = created,
      post_author = 1, post_updater = None, post_fixed = pinned\<rparr>"

definition ex_blog :: store where
  "ex_blog = empty_store\<lparr>users := [ex_user], categories := [ex_category],
               posts := [ex_post 1 ''tech'' ''published'' 30 False,
                         ex_post 2 ''pinned'' ''published'' 10 True,
                         ex_post 3 ''draft'' ''draft'' 20 False]\<rparr>"

text \<open>
  The blog with a second user, who has commented on post 1 and liked it.
\<close>

definition ex_votes :: store where
  "ex_votes = ex_blog\<lparr>
     users := [ex_user, ex_user\<lparr>user_id := 2, user_username := ''bob'',
                                user_email := ''b@x.com''\<rparr>],
     comments := [\<lparr>comment_id = 1, comment_post = 1, comment_author = 2,
                   comment_content = ''hi'', comment_time_create = 40,
                   comment_time_update = 40, comment_status = ''published'',
                   comment_parent = None\<rparr>],
     ratings := [\<lparr>rating_id = 1, rating_post = 1, rating_user = Some 2, rating_value = 1,
                  rating_time_create = 50, rating_ip_address = ''1.2.3.4''\<rparr>]\<rparr>"

text \<open>
  Stand-ins for the functions of the framework, which agree with Python and Django on
  the values the examples use: stripping removes the blanks at both ends, an address
  with an at sign passes the format check, and the one email address written with
  capitals in its domain and the one IPv6 address written at length are rewritten as
  Django rewrites them.
\<close>

definition ex_strip :: "string \<Rightarrow> string" where
  "ex_strip s =
     rev (dropWhile (\<lambda>c. c = CHR '' '') (rev (dropWhile (\<lambda>c. c = CHR '' '') s)))"

definition ex_fw :: framework where
  "ex_fw =
     \<lparr>str_strip = ex_strip,
      validate_email = (\<lambda>s. CHR ''@'' \<in> set s),
      EmailField_max_length = Some 320,
      normalize_email = (\<lambda>s. if s = ''b@X.COM'' then ''b@x.com'' else s),
      get_prep_value = (\<lambda>a. if a = ''2001:0DB8:0:0:0:0:0:1'' then ''2001:db8::1'' else a)\<rparr>"





text \<open>A store whose only user registered without an email address.\<close>

definition ex_no_email :: store where
  "ex_no_email = empty_store\<lparr>users := [ex_user\<lparr>user_email := []\<rparr>]\<rparr>"

text \<open>
  The same with the profiles of the two users: the first has an avatar, the second has
  none, as the empty profile that the spec's \<open>register\<close> creates.
\<close>

definition ex_profiles :: store where
  "ex_profiles = ex_votes\<lparr>profiles :=
     [\<lparr>profile_id = 1, profile_user = 1, profile_birth_date = None, profile_bio = [],
       profile_avatar = ''images/avatars/ann.png''\<rparr>,
      \<lparr>profile_id = 2, profile_user = 2, profile_birth_date = None, profile_bio = [],
       profile_avatar = []\<rparr>]\<rparr>"


section \<open>Properties of the ordering\<close>

lemma precedes_total: "precedes ts x y \<or> precedes ts y x"
proof (induction ts)
  case Nil
  show ?case by simp
next
  case (Cons t ts)
  then show ?case by (cases t) auto
qed

lemma precedes_trans: "precedes ts x y \<Longrightarrow> precedes ts y z \<Longrightarrow> precedes ts x z"
proof (induction ts)
  case Nil
  show ?case by simp
next
  case (Cons t ts)
  then show ?case by (cases t) auto
qed

lemma set_insert_by: "set (insert_by ts x ys) = insert x (set ys)"
  by (induction ys) auto

lemma mset_insert_by: "mset (insert_by ts x ys) = add_mset x (mset ys)"
  by (induction ys) auto

lemma sorted_insert_by:
  "sorted_wrt (precedes ts) ys \<Longrightarrow> sorted_wrt (precedes ts) (insert_by ts x ys)"
proof (induction ys)
  case Nil
  show ?case by simp
next
  case (Cons y ys)
  show ?case
  proof (cases "precedes ts x y")
    case True
    have "\<forall>z\<in>set ys. precedes ts x z"
      using Cons.prems True precedes_trans [of ts x y] by auto
    with True Cons.prems show ?thesis by simp
  next
    case False
    then have yx: "precedes ts y x"
      using precedes_total [of ts x y] by simp
    from Cons have "sorted_wrt (precedes ts) (insert_by ts x ys)" by simp
    with False yx Cons.prems show ?thesis by (simp add: set_insert_by)
  qed
qed

lemma mset_order_by: "mset (order_by ts xs) = mset xs"
  by (induction xs) (simp_all add: order_by_def mset_insert_by)

lemma set_order_by: "set (order_by ts xs) = set xs"
  using mset_order_by [of ts xs] by (metis set_mset_mset)

lemma sorted_order_by: "sorted_wrt (precedes ts) (order_by ts xs)"
  by (induction xs) (simp_all add: order_by_def sorted_insert_by)

lemma foldl_plus_sum_list: "foldl (\<lambda>s v. s + v) a xs = a + sum_list (xs :: int list)"
  by (induction xs arbitrary: a) simp_all

section \<open>The score of a post is the sum of its ratings\<close>

lemma get_sum_rating_sum_mset: "get_sum_rating st p = score_of_spec st p"
proof -
  have "get_sum_rating st p = sum_list (map rating_value (Post_ratings_all st p))"
    by (simp add: get_sum_rating_def foldl_plus_sum_list)
  also have "\<dots> = sum_mset (image_mset rating_value (mset (Post_ratings_all st p)))"
    by (metis mset_map sum_mset_sum_list)
  also have "\<dots> = score_of_spec st p"
    by (simp add: Post_ratings_all_def mset_order_by score_of_spec_def)
  finally show ?thesis .
qed

text \<open>
  Claim C4. For every post, \<open>score_of(post)\<close> (\<^verbatim>\<open>Post.get_sum_rating\<close>) equals the
  arithmetic sum of the value fields of all Ratings stored for that post, and equals 0
  when the post has no Ratings.
\<close>

theorem get_sum_rating_is_score:
  "get_sum_rating st p = score_of_spec st p \<and>
   ((\<forall>r \<in> set (ratings st). rating_post r \<noteq> p) \<longrightarrow> get_sum_rating st p = 0)"
proof
  show "get_sum_rating st p = score_of_spec st p"
    by (rule get_sum_rating_sum_mset)
  show "(\<forall>r \<in> set (ratings st). rating_post r \<noteq> p) \<longrightarrow> get_sum_rating st p = 0"
  proof
    assume "\<forall>r \<in> set (ratings st). rating_post r \<noteq> p"
    then have "filter (\<lambda>r. rating_post r = p) (ratings st) = []"
      by (simp add: filter_empty_conv)
    then show "get_sum_rating st p = 0"
      by (simp add: get_sum_rating_def Post_ratings_all_def order_by_def)
  qed
qed

theorem get_sum_rating_is_score_witness:
  "get_sum_rating ex_ratings 1 = 2 \<and> score_of_spec ex_ratings 1 = 2 \<and>
   get_sum_rating ex_ratings 2 = - 1 \<and>
   get_sum_rating ex_ratings 3 = 0"
proof -
  have a: "get_sum_rating ex_ratings 1 = 2"
    by (simp add: get_sum_rating_def Post_ratings_all_def order_by_def Rating_Meta_ordering_def ex_ratings_def empty_store_def)
  have b: "get_sum_rating ex_ratings 2 = - 1"
    by (simp add: get_sum_rating_def Post_ratings_all_def order_by_def Rating_Meta_ordering_def ex_ratings_def empty_store_def)
  have c: "\<forall>r \<in> set (ratings ex_ratings). rating_post r \<noteq> 3"
    by (simp add: ex_ratings_def empty_store_def)
  from a b c get_sum_rating_is_score [of ex_ratings 1] get_sum_rating_is_score [of ex_ratings 3]
  show ?thesis by simp
qed

section \<open>The published posts, pinned first\<close>

lemma precedes_Post_Meta_ordering:
  "precedes Post_Meta_ordering p q \<longleftrightarrow>
     (post_fixed p \<and> \<not> post_fixed q) \<or> (post_fixed p = post_fixed q \<and> post_create q \<le> post_create p)"
  by (auto simp: Post_Meta_ordering_def)

lemma find_Some_user:
  "k \<in> f ` set xs \<Longrightarrow> \<exists>x. find (\<lambda>u. f u = k) xs = Some x \<and> x \<in> set xs \<and> f x = k"
  by (induction xs) auto

lemma select_related_fst:
  assumes "\<forall>p \<in> set ps. post_author p \<in> user_id ` set (users st) \<and>
                          post_category p \<in> category_id ` set (categories st)"
  shows "map fst (select_related st ps) = ps"
  using assms
proof (induction ps)
  case Nil
  show ?case by (simp add: select_related_def List.map_filter_simps)
next
  case (Cons p ps)
  obtain u where u: "find (\<lambda>u. user_id u = post_author p) (users st) = Some u"
    using Cons.prems find_Some_user [of "post_author p" user_id "users st"] by auto
  obtain c where c: "find (\<lambda>c. category_id c = post_category p) (categories st) = Some c"
    using Cons.prems find_Some_user [of "post_category p" category_id "categories st"] by auto
  from Cons have "map fst (select_related st ps) = ps" by simp
  with u c show ?case
    by (simp add: select_related_def List.map_filter_simps)
qed

lemma select_related_joined:
  "(p, u, c) \<in> set (select_related st ps) \<Longrightarrow>
     u \<in> set (users st) \<and> user_id u = post_author p \<and>
     c \<in> set (categories st) \<and> category_id c = post_category p"
proof (induction ps)
  case Nil
  then show ?case by (simp add: select_related_def List.map_filter_simps)
next
  case (Cons q ps)
  show ?case
  proof (cases "(p, u, c) \<in> set (select_related st ps)")
    case True
    with Cons.IH show ?thesis by simp
  next
    case False
    with Cons.prems
    have "find (\<lambda>u. user_id u = post_author q) (users st) = Some u \<and>
          find (\<lambda>c. category_id c = post_category q) (categories st) = Some c \<and> p = q"
      by (auto simp: select_related_def List.map_filter_simps split: option.splits)
    then show ?thesis
      by (auto simp: find_Some_iff)
  qed
qed

lemma map_fst_filter_status:
  "map fst (filter (\<lambda>(p, u, c). P p) xs) = filter P (map fst xs)"
  by (induction xs) auto

text \<open>
  Claim C3. In every state of the store (whose posts point to stored authors and
  categories, as the datastore's foreign keys make them and as every operation here
  keeps them), \<open>list_published()\<close>
  (\<^verbatim>\<open>PostManager.get_queryset\<close>) returns exactly the posts with status published, every
  other post is left out; each comes with its author and its category; the result is
  ordered by \<^verbatim>\<open>fixed\<close> descending, then by creation time descending; so a pinned post
  stands before every post that is not pinned, whatever their creation times.
\<close>

theorem list_published_correct:
  assumes "post_fk_integrity st"
  shows "mset (map fst (PostManager_get_queryset st)) =
           filter_mset (\<lambda>p. post_status p = ''published'') (mset (posts st)) \<and>
         (\<forall>(p, u, c) \<in> set (PostManager_get_queryset st).
            u \<in> set (users st) \<and> user_id u = post_author p \<and>
            c \<in> set (categories st) \<and> category_id c = post_category p) \<and>
         sorted_wrt (\<lambda>p q. (post_fixed p \<and> \<not> post_fixed q) \<or>
                            (post_fixed p = post_fixed q \<and> post_create q \<le> post_create p))
           (map fst (PostManager_get_queryset st)) \<and>
         (\<forall>i j. i < j \<and> j < length (PostManager_get_queryset st) \<and>
                 post_fixed (fst (PostManager_get_queryset st ! j))
                 \<longrightarrow> post_fixed (fst (PostManager_get_queryset st ! i)))"
proof -
  let ?res = "PostManager_get_queryset st"
  let ?R = "\<lambda>p q. (post_fixed p \<and> \<not> post_fixed q) \<or>
                  (post_fixed p = post_fixed q \<and> post_create q \<le> post_create p)"
  have int: "\<forall>p \<in> set (Manager_get_queryset st).
               post_author p \<in> user_id ` set (users st) \<and>
               post_category p \<in> category_id ` set (categories st)"
    using assms by (simp add: post_fk_integrity_def Manager_get_queryset_def set_order_by list_all_iff)
  have fst_eq: "map fst ?res = filter (\<lambda>p. post_status p = ''published'') (Manager_get_queryset st)"
    unfolding PostManager_get_queryset_def
    by (simp only: map_fst_filter_status select_related_fst [OF int])
  have m: "mset (map fst ?res) = filter_mset (\<lambda>p. post_status p = ''published'') (mset (posts st))"
    by (simp only: fst_eq mset_filter Manager_get_queryset_def mset_order_by)
  have j: "\<forall>(p, u, c) \<in> set ?res.
            u \<in> set (users st) \<and> user_id u = post_author p \<and>
            c \<in> set (categories st) \<and> category_id c = post_category p"
    using select_related_joined [of _ _ _ st "Manager_get_queryset st"]
    by (auto simp: PostManager_get_queryset_def)
  have "sorted_wrt (precedes Post_Meta_ordering) (Manager_get_queryset st)"
    by (simp add: Manager_get_queryset_def sorted_order_by)
  then have "sorted_wrt (precedes Post_Meta_ordering) (map fst ?res)"
    by (simp only: fst_eq sorted_wrt_filter)
  then have s: "sorted_wrt ?R (map fst ?res)"
    by (simp add: precedes_Post_Meta_ordering [abs_def])
  have pin: "post_fixed (fst (?res ! i))"
    if "i < j" "j < length ?res" "post_fixed (fst (?res ! j))" for i j
  proof -
    from that have "i < j" "j < length (map fst ?res)" by simp_all
    then have "?R (map fst ?res ! i) (map fst ?res ! j)"
      by (rule sorted_wrt_nth_less [OF s])
    moreover from that have "map fst ?res ! i = fst (?res ! i)" "map fst ?res ! j = fst (?res ! j)"
      by simp_all
    ultimately show ?thesis using that(3) by auto
  qed
  from m j s pin show ?thesis by blast
qed

theorem list_published_correct_witness:
  "post_fk_integrity ex_blog \<and>
   map (\<lambda>(p, u, c). (post_id p, post_create p, user_id u, category_id c))
     (PostManager_get_queryset ex_blog) = [(2, 10, 1, 1), (1, 30, 1, 1)]"
proof -
  have i: "post_fk_integrity ex_blog"
    by (simp add: post_fk_integrity_def ex_blog_def empty_store_def ex_post_def ex_user_def
        ex_category_def)
  have "map (\<lambda>(p, u, c). (post_id p, post_create p, user_id u, category_id c))
          (PostManager_get_queryset ex_blog) = [(2, 10, 1, 1), (1, 30, 1, 1)]"
    by (simp add: PostManager_get_queryset_def select_related_def Manager_get_queryset_def
        order_by_def Post_Meta_ordering_def List.map_filter_simps ex_blog_def empty_store_def
        ex_post_def ex_user_def ex_category_def)
  with i list_published_correct [OF i] show ?thesis by simp
qed

section \<open>Properties of the collector\<close>

text \<open>
  The collector keeps what it starts from, stops only when no \<open>CASCADE\<close> key points
  into the collection from outside, and never leaves a set of models that the
  \<open>CASCADE\<close> keys do not lead out of.
\<close>

lemma collect_mono: "set objs \<subseteq> set (collect st objs)"
proof (induction st objs rule: collect.induct)
  case (1 st objs)
  show ?case
  proof (cases "filter (\<lambda>x. x \<notin> set objs) (cascaded st objs) = []")
    case True
    then show ?thesis by (simp add: collect.simps [of st objs])
  next
    case False
    with "1" show ?thesis by (simp add: collect.simps [of st objs])
  qed
qed

lemma collect_closed: "set (cascaded st (collect st objs)) \<subseteq> set (collect st objs)"
proof (induction st objs rule: collect.induct)
  case (1 st objs)
  show ?case
  proof (cases "filter (\<lambda>x. x \<notin> set objs) (cascaded st objs) = []")
    case True
    then have "set (cascaded st objs) \<subseteq> set objs"
      by (auto simp: filter_empty_conv)
    with True show ?thesis by (simp add: collect.simps [of st objs])
  next
    case False
    with "1" show ?thesis by (simp add: collect.simps [of st objs])
  qed
qed

lemma cascaded_models:
  assumes "x \<in> set (cascaded st objs)"
  shows "\<exists>f. fk_on_delete f = CASCADE \<and> fst x = fk_model f \<and> fk_to f \<in> fst ` set objs"
proof -
  from assms obtain f where f: "fk_on_delete f = CASCADE" "x \<in> set (related_objects st f objs)"
    by (auto simp: cascaded_def)
  then obtain i v where "x = (fk_model f, i)" "points_into f objs v"
    by (auto simp: related_objects_def)
  then have "fst x = fk_model f \<and> fk_to f \<in> fst ` set objs"
    by (force simp: points_into_def split: option.splits)
  with f show ?thesis by blast
qed

lemma collect_models:
  assumes closed: "\<And>f. fk_on_delete f = CASCADE \<Longrightarrow> fk_to f \<in> M \<Longrightarrow> fk_model f \<in> M"
  shows "fst ` set objs \<subseteq> M \<Longrightarrow> fst ` set (collect st objs) \<subseteq> M"
proof (induction st objs rule: collect.induct)
  case (1 st objs)
  show ?case
  proof (cases "filter (\<lambda>x. x \<notin> set objs) (cascaded st objs) = []")
    case True
    with "1.prems" show ?thesis by (simp add: collect.simps [of st objs])
  next
    case False
    have "fst ` set (cascaded st objs) \<subseteq> M"
    proof
      fix m assume "m \<in> fst ` set (cascaded st objs)"
      then obtain x where "x \<in> set (cascaded st objs)" "m = fst x" by auto
      with cascaded_models [of x st objs] obtain f where
        "fk_on_delete f = CASCADE" "m = fk_model f" "fk_to f \<in> fst ` set objs" by auto
      with "1.prems" closed show "m \<in> M" by auto
    qed
    with "1.prems" have "fst ` set (objs @ filter (\<lambda>x. x \<notin> set objs) (cascaded st objs)) \<subseteq> M"
      by auto
    with "1.IH" False show ?thesis by (simp add: collect.simps [of st objs])
  qed
qed

lemma collect_keeps:
  assumes "\<And>f. fk_on_delete f = CASCADE \<Longrightarrow> fk_model f \<noteq> m"
  shows "(m, x) \<in> set (collect st objs) \<longleftrightarrow> (m, x) \<in> set objs"
proof (induction st objs rule: collect.induct)
  case (1 st objs)
  show ?case
  proof (cases "filter (\<lambda>x. x \<notin> set objs) (cascaded st objs) = []")
    case True
    then show ?thesis by (simp add: collect.simps [of st objs])
  next
    case False
    have "(m, x) \<notin> set (cascaded st objs)"
    proof
      assume "(m, x) \<in> set (cascaded st objs)"
      with cascaded_models [of "(m, x)" st objs] obtain f where
        "fk_on_delete f = CASCADE" "m = fk_model f" by auto
      with assms show False by blast
    qed
    with "1.IH" False show ?thesis by (simp add: collect.simps [of st objs])
  qed
qed

lemma related_objects_empty:
  "fk_to f \<notin> fst ` set objs \<Longrightarrow> related_objects st f objs = []"
  by (force simp: related_objects_def points_into_def filter_empty_conv split: option.splits)

lemma protected_iff:
  "protected st objs \<longleftrightarrow> related_objects st Post_category objs \<noteq> []"
  by (simp add: protected_def foreign_keys_def)

lemma foreign_keys_complete: "f \<in> set foreign_keys"
  by (cases f) (simp_all add: foreign_keys_def)

lemma related_member:
  assumes "(i, Some k) \<in> set (fk_rows st f)" "(fk_to f, k) \<in> set objs"
  shows "(fk_model f, i) \<in> set (related_objects st f objs)"
proof -
  from assms have "(i, Some k) \<in> set (filter (\<lambda>(i, v). points_into f objs v) (fk_rows st f))"
    by (simp add: points_into_def)
  then have "(\<lambda>(i, v). (fk_model f, i)) (i, Some k)
               \<in> (\<lambda>(i, v). (fk_model f, i)) ` set (filter (\<lambda>(i, v). points_into f objs v) (fk_rows st f))"
    by (rule imageI)
  then show ?thesis by (simp add: related_objects_def)
qed

lemma cascaded_member:
  assumes "fk_on_delete f = CASCADE" "(i, Some k) \<in> set (fk_rows st f)" "(fk_to f, k) \<in> set objs"
  shows "(fk_model f, i) \<in> set (cascaded st objs)"
proof -
  have "f \<in> set (filter (\<lambda>f. fk_on_delete f = CASCADE) foreign_keys)"
    using assms(1) foreign_keys_complete by simp
  with related_member [OF assms(2,3)] show ?thesis
    unfolding cascaded_def by auto
qed

lemma collected_member:
  assumes "fk_on_delete f = CASCADE" "(i, Some k) \<in> set (fk_rows st f)"
    "(fk_to f, k) \<in> set (collect st objs)"
  shows "(fk_model f, i) \<in> set (collect st objs)"
  using cascaded_member [OF assms] collect_closed [of st objs] by blast

section \<open>A category in use cannot be deleted\<close>


lemma close_gap_columns:
  "map category_id (close_gap w t i cs) = map category_id cs"
  "map (\<lambda>c. (category_id c, category_title c, category_slug c, category_description c,
             category_parent c, category_tree_id c, category_level c)) (close_gap w t i cs)
     = map (\<lambda>c. (category_id c, category_title c, category_slug c, category_description c,
                  category_parent c, category_tree_id c, category_level c)) cs"
  by (simp_all add: close_gap_def manage_space_def)








section \<open>Deleting a post takes its comments and ratings along\<close>

text \<open>
  Claim C6. For every Post, deleting it succeeds and removes the post, all Comments and
  all Ratings that reference it (\<^verbatim>\<open>Comment.post\<close> and \<^verbatim>\<open>Rating.post\<close> are
  \<^verbatim>\<open>on_delete=models.CASCADE\<close>), and leaves the categories, among them the Category the
  post referenced, unchanged: the cascade never touches a Category (nor a User).
\<close>

theorem delete_post_cascades:
  "fst (Model_delete st Post k) = None \<and>
   (\<forall>p \<in> set (posts (snd (Model_delete st Post k))). post_id p \<noteq> k) \<and>
   (\<forall>c \<in> set (comments (snd (Model_delete st Post k))). comment_post c \<noteq> k) \<and>
   (\<forall>r \<in> set (ratings (snd (Model_delete st Post k))). rating_post r \<noteq> k) \<and>
   categories (snd (Model_delete st Post k)) = categories st \<and>
   users (snd (Model_delete st Post k)) = users st"
proof -
  let ?objs = "collect st [(Post, k)]"
  have models: "fst ` set ?objs \<subseteq> {Post, Comment, Rating}"
  proof (rule collect_models)
    fix f assume "fk_on_delete f = CASCADE" "fk_to f \<in> {Post, Comment, Rating}"
    then show "fk_model f \<in> {Post, Comment, Rating}" by (cases f) simp_all
  qed simp
  then have "fk_to Post_category \<notin> fst ` set ?objs" by auto
  then have np: "\<not> protected st ?objs"
    by (simp add: protected_iff related_objects_empty)
  have nu: "(User, i) \<notin> set ?objs" for i using models by force
  then have "\<not> default_missing st ?objs"
    by (simp add: default_missing_def points_into_def list_ex_iff)
  with np have res: "Model_delete st Post k = (None, delete_rows ?objs (field_updates ?objs st))"
    by (simp add: Model_delete_def Let_def)
  have root: "(Post, k) \<in> set ?objs"
    using collect_mono [of "[(Post, k)]" st] by simp
  have c: "(Comment, comment_id c) \<in> set ?objs" if "c \<in> set (comments st)" "comment_post c = k" for c
    using collected_member [of Comment_post "comment_id c" k st "[(Post, k)]"] that root by force
  have r: "(Rating, rating_id r) \<in> set ?objs" if "r \<in> set (ratings st)" "rating_post r = k" for r
    using collected_member [of Rating_post "rating_id r" k st "[(Post, k)]"] that root by force
  have nc: "(Category, i) \<notin> set ?objs" for i using models by force
  have 1: "\<forall>p \<in> set (posts (delete_rows ?objs (field_updates ?objs st))). post_id p \<noteq> k"
    using root by (auto simp: delete_rows_def field_updates_def)
  have 2: "\<forall>c \<in> set (comments (delete_rows ?objs (field_updates ?objs st))). comment_post c \<noteq> k"
    using c by (auto simp: delete_rows_def field_updates_def)
  have 3: "\<forall>r \<in> set (ratings (delete_rows ?objs (field_updates ?objs st))). rating_post r \<noteq> k"
    using r by (auto simp: delete_rows_def field_updates_def)
  have 4: "categories (delete_rows ?objs (field_updates ?objs st)) = categories st"
    using nc by (simp add: delete_rows_def field_updates_def)
  have 5: "users (delete_rows ?objs (field_updates ?objs st)) = users st"
    using nu by (simp add: delete_rows_def field_updates_def)
  show ?thesis
    unfolding res using 1 2 3 4 5 by simp
qed

lemma ex_votes_score: "get_sum_rating ex_votes 1 = 1"
  by code_simp

lemma ex_votes_delete_user_a: "fst (Model_delete ex_votes User 2) = None"
  by code_simp

lemma ex_votes_delete_user: "ratings (snd (Model_delete ex_votes User 2)) = []"
  by code_simp

lemma ex_votes_delete_user_b: "get_sum_rating (snd (Model_delete ex_votes User 2)) 1 = 0"
  by code_simp

theorem delete_post_cascades_witness:
  "fst (Model_delete ex_votes Post 1) = None \<and>
   map post_id (posts (snd (Model_delete ex_votes Post 1))) = [2, 3] \<and>
   comments (snd (Model_delete ex_votes Post 1)) = [] \<and>
   ratings (snd (Model_delete ex_votes Post 1)) = [] \<and>
   categories (snd (Model_delete ex_votes Post 1)) = [ex_category]"
proof -
  have "map post_id (posts (snd (Model_delete ex_votes Post 1))) = [2, 3]"
    by code_simp
  moreover have "comments ex_votes \<noteq> [] \<and> ratings ex_votes \<noteq> []"
    by code_simp
  moreover have "comments (snd (Model_delete ex_votes Post 1)) = []"
    by code_simp
  moreover have "ratings (snd (Model_delete ex_votes Post 1)) = []"
    by code_simp
  moreover have "categories ex_votes = [ex_category]"
    by (simp add: ex_votes_def ex_blog_def empty_store_def)
  ultimately show ?thesis
    using delete_post_cascades [of ex_votes 1] by simp
qed

section \<open>Deleting a user takes the user's ratings along\<close>

lemma cascaded_cases:
  assumes "x \<in> set (cascaded st objs)"
  obtains f i k where "fk_on_delete f = CASCADE" "(i, Some k) \<in> set (fk_rows st f)"
    "(fk_to f, k) \<in> set objs" "x = (fk_model f, i)"
proof -
  from assms obtain f where f: "fk_on_delete f = CASCADE" "x \<in> set (related_objects st f objs)"
    by (auto simp: cascaded_def)
  then obtain i v where iv: "(i, v) \<in> set (fk_rows st f)" "points_into f objs v" "x = (fk_model f, i)"
    by (auto simp: related_objects_def)
  then obtain k where "v = Some k" "(fk_to f, k) \<in> set objs"
    by (auto simp: points_into_def split: option.splits)
  with f iv that show ?thesis by blast
qed

lemma collect_invariant:
  assumes step: "\<And>os x. \<forall>y \<in> set os. P y \<Longrightarrow> x \<in> set (cascaded st os) \<Longrightarrow> P x"
    and init: "\<forall>y \<in> set objs. P y"
  shows "\<forall>y \<in> set (collect st objs). P y"
proof -
  have "s = st \<Longrightarrow> \<forall>y \<in> set os. P y \<Longrightarrow> \<forall>y \<in> set (collect s os). P y" for s os
  proof (induction s os rule: collect.induct)
    case (1 s os)
    show ?case
    proof (cases "filter (\<lambda>x. x \<notin> set os) (cascaded s os) = []")
      case True
      with "1.prems"(2) show ?thesis by (simp add: collect.simps [of s os])
    next
      case False
      have "\<forall>y \<in> set (os @ filter (\<lambda>x. x \<notin> set os) (cascaded s os)). P y"
        using "1.prems" step by auto
      with "1.IH" [OF False "1.prems"(1)] False show ?thesis
        by (simp add: collect.simps [of s os])
    qed
  qed
  with init show ?thesis by blast
qed

lemma collected_ratings_of_user:
  assumes "(Rating, i) \<in> set (collect st [(User, u)])"
  shows "\<exists>r \<in> set (ratings st). rating_id r = i \<and> rating_user r = Some u"
proof -
  let ?P = "\<lambda>x. fst x \<noteq> Post \<and> (fst x = User \<longrightarrow> snd x = u) \<and>
     (fst x = Rating \<longrightarrow> (\<exists>r \<in> set (ratings st). rating_id r = snd x \<and> rating_user r = Some u))"
  have "\<forall>y \<in> set (collect st [(User, u)]). ?P y"
  proof (rule collect_invariant)
    show "\<forall>y \<in> set [(User, u)]. ?P y" by simp
    fix os x
    assume inv: "\<forall>y \<in> set os. ?P y" and x: "x \<in> set (cascaded st os)"
    from x obtain f j k where f: "fk_on_delete f = CASCADE" "(j, Some k) \<in> set (fk_rows st f)"
      "(fk_to f, k) \<in> set os" "x = (fk_model f, j)"
      by (rule cascaded_cases)
    from inv f(3) have k: "fk_to f \<noteq> Post" "fk_to f = User \<longrightarrow> k = u" by force+
    show "?P x"
    proof (cases "f = Rating_user")
      case True
      with f(2) k(2) have "\<exists>r \<in> set (ratings st). rating_id r = j \<and> rating_user r = Some u"
        by force
      with True f(4) show ?thesis by simp
    next
      case False
      with f(1) k(1) f(4) show ?thesis by (cases f) simp_all
    qed
  qed
  with assms show ?thesis by force
qed

text \<open>
  Claim C10. Deleting a User deletes every Rating whose optional \<^verbatim>\<open>user\<close> field
  references that User (\<^verbatim>\<open>Rating.user\<close> is \<^verbatim>\<open>on_delete=models.CASCADE\<close>), and no
  other rating appears; with primary keys that are distinct, as the datastore keeps
  them, exactly the ratings of that User go. The deletion goes through unless a post of that user would fall
  back to a default author who is missing or is the user being deleted; a refused
  deletion leaves the store as it is. So the score of a post can change through the
  deletion of a user account: there is a store, a user and a post whose score after the
  deletion differs from the score before.
\<close>

theorem delete_user_cascades_to_ratings:
  "(fst (Model_delete st User u) = None \<longleftrightarrow>
      \<not> ((\<exists>p \<in> set (posts st). post_author p = u) \<and>
         (u = Post_author_default \<or> Post_author_default \<notin> user_id ` set (users st)))) \<and>
   (fst (Model_delete st User u) = None \<longrightarrow>
      (\<forall>r \<in> set (ratings (snd (Model_delete st User u))). rating_user r \<noteq> Some u) \<and>
      set (ratings (snd (Model_delete st User u))) \<subseteq> set (ratings st)) \<and>
   (fst (Model_delete st User u) = None \<and> distinct (map rating_id (ratings st)) \<longrightarrow>
      ratings (snd (Model_delete st User u)) =
        filter (\<lambda>r. rating_user r \<noteq> Some u) (ratings st)) \<and>
   (fst (Model_delete st User u) \<noteq> None \<longrightarrow> snd (Model_delete st User u) = st) \<and>
   (\<exists>s v p. fst (Model_delete s User v) = None \<and>
        get_sum_rating (snd (Model_delete s User v)) p \<noteq> get_sum_rating s p)"
proof -
  let ?objs = "collect st [(User, u)]"
  let ?refused = "(\<exists>p \<in> set (posts st). post_author p = u) \<and>
         (u = Post_author_default \<or> Post_author_default \<notin> user_id ` set (users st))"
  have models: "fst ` set ?objs \<subseteq> {User, Profile, Comment, Rating}"
  proof (rule collect_models)
    fix f assume "fk_on_delete f = CASCADE" "fk_to f \<in> {User, Profile, Comment, Rating}"
    then show "fk_model f \<in> {User, Profile, Comment, Rating}" by (cases f) simp_all
  qed simp
  then have "fk_to Post_category \<notin> fst ` set ?objs" by auto
  then have np: "\<not> protected st ?objs"
    by (simp add: protected_iff related_objects_empty)
  have users: "(User, x) \<in> set ?objs \<longleftrightarrow> x = u" for x
  proof -
    have "(User, x) \<in> set ?objs \<longleftrightarrow> (User, x) \<in> set [(User, u)]"
    proof (rule collect_keeps)
      fix f assume "fk_on_delete f = CASCADE"
      then show "fk_model f \<noteq> User" by (cases f) simp_all
    qed
    then show ?thesis by simp
  qed
  have noposts: "(Post, x) \<notin> set ?objs" for x using models by force
  have dm: "default_missing st ?objs \<longleftrightarrow> ?refused"
    by (auto simp: default_missing_def points_into_def list_ex_iff users noposts)
  have res: "Model_delete st User u =
      (if ?refused then (Some ReferentialError, st)
       else (None, delete_rows ?objs (field_updates ?objs st)))"
    using np dm by (simp add: Model_delete_def Let_def)
  have r: "(Rating, rating_id r) \<in> set ?objs" if "r \<in> set (ratings st)" "rating_user r = Some u" for r
    using collected_member [of Rating_user "rating_id r" u st "[(User, u)]"] that users [of u]
    by force
  have 1: "\<forall>r \<in> set (ratings (delete_rows ?objs (field_updates ?objs st))). rating_user r \<noteq> Some u"
    using r by (auto simp: delete_rows_def field_updates_def)
  have 2: "set (ratings (delete_rows ?objs (field_updates ?objs st))) \<subseteq> set (ratings st)"
    by (auto simp: delete_rows_def field_updates_def)
  have 4: "ratings (delete_rows ?objs (field_updates ?objs st)) =
        filter (\<lambda>r. rating_user r \<noteq> Some u) (ratings st)"
    if d: "distinct (map rating_id (ratings st))"
  proof -
    have "(Rating, rating_id x) \<notin> set ?objs \<longleftrightarrow> rating_user x \<noteq> Some u"
      if x: "x \<in> set (ratings st)" for x
    proof
      assume "(Rating, rating_id x) \<notin> set ?objs"
      with r [OF x] show "rating_user x \<noteq> Some u" by blast
    next
      assume n: "rating_user x \<noteq> Some u"
      show "(Rating, rating_id x) \<notin> set ?objs"
      proof
        assume "(Rating, rating_id x) \<in> set ?objs"
        then obtain y where y: "y \<in> set (ratings st)" "rating_id y = rating_id x"
          "rating_user y = Some u"
          using collected_ratings_of_user by blast
        from d have "inj_on rating_id (set (ratings st))"
          by (simp add: distinct_map)
        with x y(1,2) have "y = x" by (auto dest: inj_onD)
        with y(3) n show False by simp
      qed
    qed
    then have "filter (\<lambda>x. (Rating, rating_id x) \<notin> set ?objs) (ratings st) =
        filter (\<lambda>r. rating_user r \<noteq> Some u) (ratings st)"
      by (rule filter_cong [OF refl])
    then show ?thesis
      by (simp add: delete_rows_def field_updates_def)
  qed
  have "fst (Model_delete ex_votes User 2) = None \<and>
        get_sum_rating (snd (Model_delete ex_votes User 2)) 1 \<noteq> get_sum_rating ex_votes 1"
    using ex_votes_score ex_votes_delete_user_b ex_votes_delete_user_a by simp
  then have 3: "\<exists>s v p. fst (Model_delete s User v) = None \<and>
        get_sum_rating (snd (Model_delete s User v)) p \<noteq> get_sum_rating s p"
    by blast
  show ?thesis
  proof (cases ?refused)
    case True
    with 3 show ?thesis unfolding res by simp
  next
    case False
    then have md: "Model_delete st User u = (None, delete_rows ?objs (field_updates ?objs st))"
      by (simp only: res if_False)
    have a: "fst (Model_delete st User u) = None \<longleftrightarrow> \<not> ?refused"
      using False by (simp only: md fst_conv simp_thms)
    have b: "(\<forall>r \<in> set (ratings (snd (Model_delete st User u))). rating_user r \<noteq> Some u) \<and>
      set (ratings (snd (Model_delete st User u))) \<subseteq> set (ratings st)"
      using 1 2 by (simp only: md snd_conv simp_thms)
    have c: "distinct (map rating_id (ratings st)) \<longrightarrow>
      ratings (snd (Model_delete st User u)) =
        filter (\<lambda>r. rating_user r \<noteq> Some u) (ratings st)"
    proof
      assume "distinct (map rating_id (ratings st))"
      from 4 [OF this] show "ratings (snd (Model_delete st User u)) =
        filter (\<lambda>r. rating_user r \<noteq> Some u) (ratings st)"
        by (simp only: md snd_conv)
    qed
    have d: "fst (Model_delete st User u) \<noteq> None \<longrightarrow> snd (Model_delete st User u) = st"
      by (simp add: md)
    from a b c d 3 show ?thesis by blast
  qed
qed

theorem delete_user_cascades_to_ratings_witness:
  "fst (Model_delete ex_votes User 2) = None \<and>
   ratings ex_votes \<noteq> [] \<and>
   ratings (snd (Model_delete ex_votes User 2)) = [] \<and>
   get_sum_rating ex_votes 1 = 1 \<and>
   get_sum_rating (snd (Model_delete ex_votes User 2)) 1 = 0 \<and>
   Model_delete ex_votes User 1 = (Some ReferentialError, ex_votes)"
proof -
  have a: "ratings ex_votes \<noteq> []"
    by (simp add: ex_votes_def)
  have b: "\<not> (\<exists>p \<in> set (posts ex_votes). post_author p = 2)"
    by (simp add: ex_votes_def ex_blog_def ex_post_def)
  have c: "(\<exists>p \<in> set (posts ex_votes). post_author p = 1) \<and> 1 = Post_author_default"
    by (simp add: ex_votes_def ex_blog_def ex_post_def Post_author_default_def)
  from c delete_user_cascades_to_ratings [of ex_votes 1]
  have "fst (Model_delete ex_votes User 1) \<noteq> None \<and> snd (Model_delete ex_votes User 1) = ex_votes"
    by auto
  moreover have "fst (Model_delete ex_votes User 1) = Some ReferentialError"
    by code_simp
  ultimately have d: "Model_delete ex_votes User 1 = (Some ReferentialError, ex_votes)"
    by (simp add: prod_eq_iff)
  from b delete_user_cascades_to_ratings [of ex_votes 2]
  have "fst (Model_delete ex_votes User 2) = None"
    by blast
  with a d ex_votes_score ex_votes_delete_user ex_votes_delete_user_b show ?thesis
    by simp
qed

section \<open>One vote for each post and address\<close>








section \<open>A vote is +1 or -1\<close>

text \<open>
  Claim C7. For every call \<open>cast_vote(post, address, value, user?)\<close>, the vote value
  must be exactly +1 or -1: for any other integer value the call fails with
  ValidationError and no Rating is stored (the store is unchanged), and a call that
  succeeds had the value +1 or -1.
\<close>

theorem vote_value_validated:
  "(v \<noteq> 1 \<and> v \<noteq> - 1 \<longrightarrow> cast_vote fw st p a v u t = (Some ValidationError, st)) \<and>
   (fst (cast_vote fw st p a v u t) = None \<longrightarrow> v = 1 \<or> v = - 1)"
  by (auto simp: cast_vote_def Rating_create_def Rating_value_choices_def)

theorem vote_value_validated_witness:
  "cast_vote ex_fw ex_blog 1 ''1.2.3.4'' 5 None 100 = (Some ValidationError, ex_blog) \<and>
   cast_vote ex_fw ex_blog 1 ''1.2.3.4'' 0 None 100 = (Some ValidationError, ex_blog) \<and>
   fst (cast_vote ex_fw ex_blog 1 ''1.2.3.4'' (- 1) None 100) = None"
proof -
  have "fst (cast_vote ex_fw ex_blog 1 ''1.2.3.4'' (- 1) None 100) = None" by code_simp
  with vote_value_validated [of 5 ex_fw ex_blog 1 "''1.2.3.4''" None 100]
    vote_value_validated [of 0 ex_fw ex_blog 1 "''1.2.3.4''" None 100]
  show ?thesis by simp
qed

section \<open>Email addresses of users\<close>

lemma register_clean:
  "register fw rest st username email first_name last_name =
     (if (str_strip fw email \<noteq> [] \<and>
            (254 < length (str_strip fw email) \<or> \<not> validate_email fw (str_strip fw email) \<or>
             (\<exists>u \<in> set (users st). user_email u = str_strip fw email))) \<or> \<not> rest
      then (Some ValidationError, st)
      else (None,
            st\<lparr>users := users st @
                 [\<lparr>user_id = next_pk (map user_id (users st)), user_username = username,
                   user_email = normalize_email fw (str_strip fw email),
                   user_first_name = first_name, user_last_name = last_name\<rparr>]\<rparr>))"
  by (auto simp: register_def EmailField_clean_def CharField_clean_def Let_def
      UserRegisterForm_email_def UserRegisterForm_clean_email_def truthy_def list_ex_iff
      User_clean_fields_def User_email_max_length_def)

lemma update_account_clean:
  "update_account fw rest st k username email first_name last_name =
     (if str_strip fw email = [] \<or>
         (case EmailField_max_length fw of None \<Rightarrow> False
          | Some n \<Rightarrow> n < length (str_strip fw email)) \<or>
         254 < length (str_strip fw email) \<or>
         \<not> validate_email fw (str_strip fw email) \<or>
         (\<exists>u \<in> set (users st). user_email u = str_strip fw email \<and> user_id u \<noteq> k) \<or> \<not> rest
      then (Some ValidationError, st)
      else (None,
            st\<lparr>users :=
                 map (\<lambda>u. if user_id u = k
                           then u\<lparr>user_username := username,
                                  user_email := normalize_email fw (str_strip fw email),
                                  user_first_name := first_name,
                                  user_last_name := last_name\<rparr>
                           else u)
                     (users st)\<rparr>))"
  by (auto simp: update_account_def EmailField_clean_def CharField_clean_def Let_def
      UserUpdateForm_email_def UserUpdateForm_clean_email_def truthy_def list_ex_iff
      User_clean_fields_def User_email_max_length_def split: option.splits)

text \<open>
  Claim C8, amended. With the given email as the form field cleans it (stripped of
  surrounding whitespace): \<open>register\<close> fails with ValidationError, leaving the store
  and so the existing user unchanged, when the given email is not empty and is the
  stored email of an existing user. \<open>update_account\<close> fails with ValidationError,
  leaving the store unchanged, when the given email is the stored email of a different
  existing user. A user may keep their own email: \<^verbatim>\<open>clean_email\<close> returns it, and the
  update goes through when the email passes the checks of the form field and of the
  model field (format and length) and the rest of the form is valid.
\<close>

theorem email_unique_when_given:
  "(str_strip fw email \<noteq> [] \<and> (\<exists>u \<in> set (users st). user_email u = str_strip fw email) \<longrightarrow>
      register fw rest st username email first_name last_name = (Some ValidationError, st)) \<and>
   ((\<exists>u \<in> set (users st). user_email u = str_strip fw email \<and> user_id u \<noteq> k) \<longrightarrow>
      update_account fw rest st k username email first_name last_name
        = (Some ValidationError, st)) \<and>
   (str_strip fw email \<noteq> [] \<and>
    (\<forall>u \<in> set (users st). user_email u = str_strip fw email \<longrightarrow> user_id u = k) \<longrightarrow>
      UserUpdateForm_clean_email (users st) (Some k) [''email'' \<mapsto> str_strip fw email]
        = Inr (Some (str_strip fw email)) \<and>
      (rest \<and> validate_email fw (str_strip fw email) \<and> length (str_strip fw email) \<le> 254 \<and>
       (\<forall>n. EmailField_max_length fw = Some n \<longrightarrow> length (str_strip fw email) \<le> n) \<longrightarrow>
         fst (update_account fw rest st k username email first_name last_name) = None))"
proof -
  have 1: "str_strip fw email \<noteq> [] \<and> (\<exists>u \<in> set (users st). user_email u = str_strip fw email) \<longrightarrow>
      register fw rest st username email first_name last_name = (Some ValidationError, st)"
    by (simp add: register_clean)
  have 2: "(\<exists>u \<in> set (users st). user_email u = str_strip fw email \<and> user_id u \<noteq> k) \<longrightarrow>
      update_account fw rest st k username email first_name last_name
        = (Some ValidationError, st)"
    by (simp add: update_account_clean)
  have 3: "str_strip fw email \<noteq> [] \<and>
    (\<forall>u \<in> set (users st). user_email u = str_strip fw email \<longrightarrow> user_id u = k) \<longrightarrow>
      UserUpdateForm_clean_email (users st) (Some k) [''email'' \<mapsto> str_strip fw email]
        = Inr (Some (str_strip fw email))"
    by (auto simp: UserUpdateForm_clean_email_def truthy_def list_ex_iff)
  have 4: "str_strip fw email \<noteq> [] \<and>
    (\<forall>u \<in> set (users st). user_email u = str_strip fw email \<longrightarrow> user_id u = k) \<longrightarrow>
      (rest \<and> validate_email fw (str_strip fw email) \<and> length (str_strip fw email) \<le> 254 \<and>
       (\<forall>n. EmailField_max_length fw = Some n \<longrightarrow> length (str_strip fw email) \<le> n) \<longrightarrow>
         fst (update_account fw rest st k username email first_name last_name) = None)"
    by (auto simp: update_account_clean split: option.splits)
  from 1 2 3 4 show ?thesis by blast
qed

theorem email_unique_when_given_witness:
  "register ex_fw True ex_votes ''eve'' '' a@x.com '' ''Eve'' ''E''
     = (Some ValidationError, ex_votes) \<and>
   update_account ex_fw True ex_votes 2 ''bob'' ''a@x.com'' ''Bob'' ''B''
     = (Some ValidationError, ex_votes) \<and>
   fst (update_account ex_fw True ex_votes 2 ''bob'' ''b@x.com'' ''Bob'' ''B'') = None"
proof -
  have u: "users ex_votes = [ex_user, ex_user\<lparr>user_id := 2, user_username := ''bob'',
                                user_email := ''b@x.com''\<rparr>]"
    by (simp add: ex_votes_def)
  have s: "str_strip ex_fw '' a@x.com '' = ''a@x.com''" "str_strip ex_fw ''a@x.com'' = ''a@x.com''"
    "str_strip ex_fw ''b@x.com'' = ''b@x.com''"
    by (simp_all add: ex_fw_def ex_strip_def)
  have a: "\<exists>u \<in> set (users ex_votes). user_email u = ''a@x.com''"
    by (simp add: u ex_user_def)
  have c: "\<exists>u \<in> set (users ex_votes). user_email u = ''a@x.com'' \<and> user_id u \<noteq> 2"
    by (simp add: u ex_user_def)
  have d: "\<forall>u \<in> set (users ex_votes). user_email u = ''b@x.com'' \<longrightarrow> user_id u = 2"
    by (simp add: u ex_user_def)
  have v: "validate_email ex_fw ''b@x.com''"
    "\<forall>n. EmailField_max_length ex_fw = Some n \<longrightarrow> length ''b@x.com'' \<le> n"
    by (simp_all add: ex_fw_def)
  from a s email_unique_when_given [of ex_fw "'' a@x.com ''" ex_votes True "''eve''" "''Eve''" "''E''" 2]
  have 1: "register ex_fw True ex_votes ''eve'' '' a@x.com '' ''Eve'' ''E''
     = (Some ValidationError, ex_votes)"
    by simp
  from c s email_unique_when_given [of ex_fw "''a@x.com''" ex_votes True "''bob''" "''Bob''" "''B''" 2]
  have 3: "update_account ex_fw True ex_votes 2 ''bob'' ''a@x.com'' ''Bob'' ''B''
     = (Some ValidationError, ex_votes)"
    by simp
  from d s v email_unique_when_given [of ex_fw "''b@x.com''" ex_votes True "''bob''" "''Bob''" "''B''" 2]
  have 4: "fst (update_account ex_fw True ex_votes 2 ''bob'' ''b@x.com'' ''Bob'' ''B'') = None"
    by simp
  from 1 3 4 show ?thesis by simp
qed

text \<open>
  Claim C8 as stated fails for the empty email. \<^verbatim>\<open>clean_email\<close> checks
  \<^verbatim>\<open>if email and ...\<close>, so an empty address is never compared: with a user stored
  who has no email address, a registration without one passes \<^verbatim>\<open>clean_email\<close> and is
  stored.
\<close>

theorem empty_email_not_unique:
  "(\<exists>u \<in> set (users ex_no_email). user_email u = []) \<and>
   UserRegisterForm_clean_email (users ex_no_email) [''email'' \<mapsto> []] = Inr (Some []) \<and>
   fst (register ex_fw True ex_no_email ''bob'' [] ''Bob'' ''B'') = None \<and>
   map user_email (users (snd (register ex_fw True ex_no_email ''bob'' [] ''Bob'' ''B'')))
     = [[], []]"
  by (simp add: register_clean ex_no_email_def empty_store_def ex_user_def ex_fw_def
      ex_strip_def UserRegisterForm_clean_email_def truthy_def)

section \<open>The avatar of a profile\<close>

lemma ProfileUpdateForm_save_omitted:
  "ProfileUpdateForm_save fw prof birth_date bio None =
     (if birth_date = None \<or> str_strip fw bio = [] \<or> 500 < length (str_strip fw bio) \<or>
         profile_avatar prof = []
      then Inl ValidationError
      else Inr (prof\<lparr>profile_birth_date := birth_date, profile_bio := str_strip fw bio\<rparr>))"
  by (auto simp: ProfileUpdateForm_save_def DateField_clean_def CharField_clean_def Let_def
      FileField_clean_def truthy_def ProfileUpdateForm_birth_date_def ProfileUpdateForm_bio_def
      ProfileUpdateForm_avatar_def)

text \<open>
  Claim C9, amended. For every call
  \<open>update_profile(user, birth_date, bio, avatar?)\<close> on a user with a profile: when the
  avatar is omitted, the profile already has an avatar, a birth date is given and the
  bio, stripped of surrounding whitespace as the form field strips it, is not empty and
  at most 500 characters long, the update succeeds, the profile's avatar retains its
  prior value, \<open>birth_date\<close> is replaced and \<open>bio\<close> is replaced by the stripped
  bio. When the avatar is omitted and the profile has none, the update fails with
  ValidationError and the store is unchanged: the form's \<^verbatim>\<open>avatar\<close> field is required.
\<close>

theorem avatar_kept_when_present:
  assumes "find (\<lambda>q. profile_user q = u) (profiles st) = Some prof"
  shows "(profile_avatar prof \<noteq> [] \<and> str_strip fw bio \<noteq> [] \<and> length (str_strip fw bio) \<le> 500 \<longrightarrow>
            update_profile fw st u (Some d) bio None =
              (None, st\<lparr>profiles :=
                 map (\<lambda>q. if profile_id q = profile_id prof
                           then prof\<lparr>profile_birth_date := Some d,
                                     profile_bio := str_strip fw bio\<rparr>
                           else q) (profiles st)\<rparr>) \<and>
            profile_avatar (prof\<lparr>profile_birth_date := Some d, profile_bio := str_strip fw bio\<rparr>)
              = profile_avatar prof) \<and>
         (profile_avatar prof = [] \<longrightarrow>
            update_profile fw st u birth_date bio None = (Some ValidationError, st))"
  using assms by (simp add: update_profile_def ProfileUpdateForm_save_omitted)

theorem avatar_kept_when_present_witness:
  "map (\<lambda>q. (profile_birth_date q, profile_bio q, profile_avatar q))
     (profiles (snd (update_profile ex_fw ex_profiles 1 (Some 7) '' hello '' None)))
     = [(Some 7, ''hello'', ''images/avatars/ann.png''), (None, [], [])] \<and>
   fst (update_profile ex_fw ex_profiles 1 (Some 7) '' hello '' None) = None"
proof -
  have f: "find (\<lambda>q. profile_user q = 1) (profiles ex_profiles) =
      Some \<lparr>profile_id = 1, profile_user = 1, profile_birth_date = None, profile_bio = [],
            profile_avatar = ''images/avatars/ann.png''\<rparr>"
    by (simp add: ex_profiles_def)
  have s: "str_strip ex_fw '' hello '' = ''hello''"
    by (simp add: ex_fw_def ex_strip_def)
  show ?thesis
    using avatar_kept_when_present [OF f, of ex_fw "'' hello ''" 7] s
    by (simp add: ex_profiles_def)
qed

text \<open>
  Claim C9 as stated fails for a profile without an avatar: the avatar argument is not
  optional there. The update without an avatar is refused, and neither the birth date
  nor the bio is replaced.
\<close>

theorem avatar_required_without_one:
  "update_profile ex_fw ex_profiles 2 (Some 7) ''hello'' None
     = (Some ValidationError, ex_profiles) \<and>
   find (\<lambda>q. profile_user q = 2) (profiles ex_profiles) =
      Some \<lparr>profile_id = 2, profile_user = 2, profile_birth_date = None, profile_bio = [],
            profile_avatar = []\<rparr>"
  by (simp add: update_profile_def ProfileUpdateForm_save_omitted ex_profiles_def)

section \<open>Slugs of posts\<close>


lemma Model_save_posts:
  "posts (snd (Model_save now st p)) = posts st \<or>
   post_id p \<in> post_id ` set (posts st) \<and>
     posts (snd (Model_save now st p)) =
       map (\<lambda>q. if post_id q = post_id p then p\<lparr>post_update := now\<rparr> else q) (posts st) \<or>
   post_id p \<notin> post_id ` set (posts st) \<and>
     posts (snd (Model_save now st p)) = posts st @ [p\<lparr>post_create := now, post_update := now\<rparr>]"
  by (simp add: Model_save_def)







section \<open>The foreign keys of posts stay valid\<close>

text \<open>
  The hypothesis of the theorem on the published posts, that every post points to a
  stored author and a stored category, is an invariant of this development: it holds in
  the empty store and every operation keeps it.
\<close>

lemma post_fk_integrity_iff:
  "post_fk_integrity st \<longleftrightarrow>
     (\<forall>p \<in> set (posts st). post_author p \<in> user_id ` set (users st) \<and>
                            post_category p \<in> category_id ` set (categories st))"
  by (simp add: post_fk_integrity_def list_all_iff)

lemma integrity_empty: "post_fk_integrity empty_store"
  by (simp add: post_fk_integrity_def empty_store_def)

lemma integrity_Model_save:
  assumes "post_fk_integrity st"
  shows "post_fk_integrity (snd (Model_save now st p))"
proof -
  from Model_save_posts [of now st p]
  have "set (posts (snd (Model_save now st p))) \<subseteq>
          set (posts st) \<union> {p\<lparr>post_update := now\<rparr>, p\<lparr>post_create := now, post_update := now\<rparr>}"
    by auto
  moreover have "users (snd (Model_save now st p)) = users st"
    "categories (snd (Model_save now st p)) = categories st"
    by (simp_all add: Model_save_def)
  moreover have "post_author p \<in> user_id ` set (users st) \<and>
                 post_category p \<in> category_id ` set (categories st)"
    if "posts (snd (Model_save now st p)) \<noteq> posts st"
    using that by (auto simp: Model_save_def split: if_splits)
  ultimately show ?thesis
    using assms unfolding post_fk_integrity_iff
    by (cases "posts (snd (Model_save now st p)) = posts st") auto
qed

lemma integrity_Post_save:
  "post_fk_integrity st \<Longrightarrow> post_fk_integrity (snd (Post_save unique_slugify now st self))"
  by (simp add: Post_save_def integrity_Model_save)

lemma integrity_Model_delete:
  assumes "post_fk_integrity st"
  shows "post_fk_integrity (snd (Model_delete st m k))"
proof (cases "protected st (collect st [(m, k)]) \<or> default_missing st (collect st [(m, k)])")
  case True
  with assms show ?thesis by (simp add: Model_delete_def Let_def)
next
  case False
  let ?objs = "collect st [(m, k)]"
  let ?st = "delete_rows ?objs (field_updates ?objs st)"
  from False have res: "snd (Model_delete st m k) = ?st"
    by (simp add: Model_delete_def Let_def)
  from False have np: "related_objects st Post_category ?objs = []"
    by (simp add: protected_iff)
  have "post_author p \<in> user_id ` set (users ?st) \<and>
        post_category p \<in> category_id ` set (categories ?st)"
    if p: "p \<in> set (posts ?st)" for p
  proof -
    from p obtain q where q: "q \<in> set (posts st)" "(Post, post_id q) \<notin> set ?objs"
      and pc: "post_category p = post_category q"
      and pa: "post_author p =
        (if points_into Post_author ?objs (Some (post_author q)) then Post_author_default
         else post_author q)"
      by (auto simp: delete_rows_def field_updates_def)
    from q(1) assms obtain c u where c: "c \<in> set (categories st)" "category_id c = post_category q"
      and u: "u \<in> set (users st)" "user_id u = post_author q"
      unfolding post_fk_integrity_iff by force
    have "(Category, post_category q) \<notin> set ?objs"
    proof
      assume "(Category, post_category q) \<in> set ?objs"
      then have "(Post, post_id q) \<in> set (related_objects st Post_category ?objs)"
        using related_member [of "post_id q" "post_category q" st Post_category ?objs] q(1)
        by force
      with np show False by simp
    qed
    with c have cat: "post_category p \<in> category_id ` set (categories ?st)"
      by (force simp: pc delete_rows_def field_updates_def)
    have aut: "post_author p \<in> user_id ` set (users ?st)"
    proof (cases "points_into Post_author ?objs (Some (post_author q))")
      case True
      with q False have "(User, Post_author_default) \<notin> set ?objs"
        "Post_author_default \<in> user_id ` set (users st)"
        by (auto simp: default_missing_def list_ex_iff)
      with True pa show ?thesis
        by (force simp: delete_rows_def field_updates_def)
    next
      case False
      then have "(User, post_author q) \<notin> set ?objs"
        by (simp add: points_into_def)
      with False pa u show ?thesis
        by (force simp: delete_rows_def field_updates_def)
    qed
    from cat aut show ?thesis by simp
  qed
  then show ?thesis
    unfolding res post_fk_integrity_iff by blast
qed

lemma integrity_other:
  "post_fk_integrity st \<Longrightarrow> post_fk_integrity (snd (cast_vote fw st p a v u t))"
  "post_fk_integrity st \<Longrightarrow> post_fk_integrity (snd (register fw rest st n e f l))"
  "post_fk_integrity st \<Longrightarrow> post_fk_integrity (snd (update_account fw rest st k n e f l))"
  "post_fk_integrity st \<Longrightarrow> post_fk_integrity (snd (update_profile fw st k d b av))"
proof -
  assume i: "post_fk_integrity st"
  show "post_fk_integrity (snd (cast_vote fw st p a v u t))"
    using i by (simp add: cast_vote_def Rating_create_def post_fk_integrity_def)
  show "post_fk_integrity (snd (register fw rest st n e f l))"
    using i by (auto simp: register_clean post_fk_integrity_iff)
  have "map user_id (map (\<lambda>u. if user_id u = k
                           then u\<lparr>user_username := n, user_email := x,
                                  user_first_name := f, user_last_name := l\<rparr>
                           else u) xs) = map user_id xs" for xs x
    by (induction xs) simp_all
  then have "user_id ` set (map (\<lambda>u. if user_id u = k
                           then u\<lparr>user_username := n, user_email := x,
                                  user_first_name := f, user_last_name := l\<rparr>
                           else u) (users st)) = user_id ` set (users st)" for x
    by (metis list.set_map)
  then show "post_fk_integrity (snd (update_account fw rest st k n e f l))"
    using i by (simp add: update_account_clean post_fk_integrity_iff)
  show "post_fk_integrity (snd (update_profile fw st k d b av))"
    using i by (simp add: update_profile_def post_fk_integrity_def split: option.splits sum.splits)
qed

lemma integrity_Category_delete:
  assumes "post_fk_integrity st"
  shows "post_fk_integrity (snd (Category_delete st c))"
proof -
  have "post_fk_integrity (st\<lparr>categories := close_gap w t i (categories st)\<rparr>)" for w t i
    using assms close_gap_columns(1) [of w t i "categories st"]
    by (simp add: post_fk_integrity_iff) (metis list.set_map)
  then show ?thesis
    by (simp add: Category_delete_def Let_def integrity_Model_delete)
qed

end
